theory Spec2Isabelle
  imports Main "HOL-Library.Word"
begin

unbundle bit_operations_syntax

section \<open>Standard types and memory\<close>

text \<open>
  The embedding follows \<^verbatim>\<open>infras/communication/Com/Com.c\<close> with the two build
  switches \<^verbatim>\<open>COM_USE_SIGNAL_UPDATE_BIT\<close> and \<^verbatim>\<open>COM_USE_CAN\<close> defined, so that the
  update-bit handling and the transmission paths are part of the program.
\<close>

type_synonym byte = "8 word"
type_synonym uint32_t = "32 word"

datatype Std_ReturnType = E_OK | E_NOT_OK

text \<open>
  C leaves a dereference of \<^verbatim>\<open>NULL\<close> and an access behind the end of an object
  undefined. The model makes both a value: a function that would perform such an access
  returns \<open>Inl\<close> of the fault instead of a result.
\<close>

datatype fault = NullPointer | OutOfBounds

text \<open>
  A \<^verbatim>\<open>void *\<close> handed in by the application is a \<open>byte list option\<close>: \<open>None\<close> is
  \<^verbatim>\<open>NULL\<close>, \<open>Some m\<close> points to an object whose bytes are \<open>m\<close>. Application objects
  are disjoint from the I-PDU buffers of the module. An access of type \<^verbatim>\<open>uint8_t\<close>,
  \<^verbatim>\<open>uint16_t\<close> or \<^verbatim>\<open>uint32_t\<close> reads or writes the first 1, 2 or 4 bytes; the host
  keeps the least significant byte first. A signed access writes the same bytes as the
  unsigned access of that width.
\<close>

fun word_bytes :: "nat \<Rightarrow> uint32_t \<Rightarrow> byte list" where
  "word_bytes 0 v = []"
| "word_bytes (Suc n) v = ucast v # word_bytes n (drop_bit 8 v)"

fun bytes_word :: "byte list \<Rightarrow> uint32_t" where
  "bytes_word [] = 0"
| "bytes_word (b # bs) = ucast b OR push_bit 8 (bytes_word bs)"

definition load_uint :: "nat \<Rightarrow> byte list option \<Rightarrow> fault + uint32_t" where
  "load_uint n p =
     (case p of
        None \<Rightarrow> Inl NullPointer
      | Some m \<Rightarrow> if length m < n then Inl OutOfBounds else Inr (bytes_word (take n m)))"

definition store_uint :: "nat \<Rightarrow> byte list option \<Rightarrow> uint32_t \<Rightarrow> fault + byte list option" where
  "store_uint n p v =
     (case p of
        None \<Rightarrow> Inl NullPointer
      | Some m \<Rightarrow> if length m < n then Inl OutOfBounds
                  else Inr (Some (word_bytes n v @ drop n m)))"

text \<open>\<^verbatim>\<open>memcpy(dst, src, n)\<close>; the result is the new content of the destination object.\<close>

definition memcpy :: "byte list option \<Rightarrow> byte list option \<Rightarrow> nat \<Rightarrow> fault + byte list" where
  "memcpy dst src n =
     (case dst of
        None \<Rightarrow> Inl NullPointer
      | Some d \<Rightarrow>
          (case src of
             None \<Rightarrow> Inl NullPointer
           | Some s \<Rightarrow> if length d < n \<or> length s < n then Inl OutOfBounds
                       else Inr (take n s @ drop n d)))"

section \<open>Bit codec\<close>

text \<open>
  Modelled from the spec: the functions of \<^verbatim>\<open>Std_Bit.h\<close> (\<^verbatim>\<open>Std_BitGet\<close>,
  \<^verbatim>\<open>Std_BitSet\<close>, \<^verbatim>\<open>Std_BitClear\<close> and the four field accessors), which \<^verbatim>\<open>Com.c\<close>
  calls and whose source is not at hand. Single bits are indexed least significant bit
  first within each byte. The spec fixes the behaviour only for bits that lie within the
  buffer; here a bit outside the buffer reads as clear and a write to it is dropped.
\<close>

definition Std_BitGet :: "byte list \<Rightarrow> nat \<Rightarrow> bool" where
  "Std_BitGet buf b = (b div 8 < length buf \<and> bit (buf ! (b div 8)) (b mod 8))"

definition Std_BitSet :: "byte list \<Rightarrow> nat \<Rightarrow> byte list" where
  "Std_BitSet buf b =
     (if b div 8 < length buf then buf[b div 8 := set_bit (b mod 8) (buf ! (b div 8))] else buf)"

definition Std_BitClear :: "byte list \<Rightarrow> nat \<Rightarrow> byte list" where
  "Std_BitClear buf b =
     (if b div 8 < length buf then buf[b div 8 := unset_bit (b mod 8) (buf ! (b div 8))] else buf)"

text \<open>
  Modelled from the spec: a field is a sequence of bit positions of the buffer, given
  here from the least significant bit of the field upwards. Reading collects the bits
  into a right-aligned value; writing deposits the low bits of the value at the positions
  and leaves every other bit of the buffer as it is.
\<close>

fun field_get :: "byte list \<Rightarrow> nat list \<Rightarrow> uint32_t" where
  "field_get buf [] = 0"
| "field_get buf (p # ps) =
     (if Std_BitGet buf p then 1 else 0) OR push_bit 1 (field_get buf ps)"

fun field_set :: "byte list \<Rightarrow> nat list \<Rightarrow> uint32_t \<Rightarrow> byte list" where
  "field_set buf [] v = buf"
| "field_set buf (p # ps) v =
     field_set (if bit v 0 then Std_BitSet buf p else Std_BitClear buf p) ps (drop_bit 1 v)"

text \<open>
  Modelled from the spec: in a little-endian field, bit \<open>k\<close> of the field lies at bit
  \<open>start + k\<close>, counted least significant bit first across the byte stream.
\<close>

definition little_positions :: "nat \<Rightarrow> nat \<Rightarrow> nat list" where
  "little_positions start width = [start ..< start + width]"

text \<open>
  Modelled from the spec: in a big-endian field the start is the position of the top bit
  of the field (bit 7 of a byte is its most significant bit). The walk takes the top bit
  at the start, then progressively lower bits, and wraps into bit 7 of the next byte when
  the least significant bit of the current byte is consumed. \<open>big_walk\<close> lists the
  positions from the top bit of the field downwards.
\<close>

fun big_walk :: "nat \<Rightarrow> nat \<Rightarrow> nat list" where
  "big_walk p 0 = []"
| "big_walk p (Suc n) = p # big_walk (if p mod 8 = 0 then p + 15 else p - 1) n"

definition big_positions :: "nat \<Rightarrow> nat \<Rightarrow> nat list" where
  "big_positions start width = rev (big_walk start width)"

text \<open>
  Modelled from the spec: the four field accessors of \<^verbatim>\<open>Std_Bit.h\<close>, a read or a
  write of \<open>width\<close> bits at the positions that the byte order gives for \<open>start\<close>.
\<close>

definition Std_BitGetLittleEndian :: "byte list \<Rightarrow> nat \<Rightarrow> nat \<Rightarrow> uint32_t" where
  "Std_BitGetLittleEndian buf start width = field_get buf (little_positions start width)"

definition Std_BitSetLittleEndian :: "byte list \<Rightarrow> uint32_t \<Rightarrow> nat \<Rightarrow> nat \<Rightarrow> byte list" where
  "Std_BitSetLittleEndian buf v start width = field_set buf (little_positions start width) v"

definition Std_BitGetBigEndian :: "byte list \<Rightarrow> nat \<Rightarrow> nat \<Rightarrow> uint32_t" where
  "Std_BitGetBigEndian buf start width = field_get buf (big_positions start width)"

definition Std_BitSetBigEndian :: "byte list \<Rightarrow> uint32_t \<Rightarrow> nat \<Rightarrow> nat \<Rightarrow> byte list" where
  "Std_BitSetBigEndian buf v start width = field_set buf (big_positions start width) v"

section \<open>Configuration\<close>

text \<open>
  Modelled from the spec: the enumerations and structures of \<^verbatim>\<open>Com.h\<close> and
  \<^verbatim>\<open>Com_Priv.h\<close>, whose declarations are not at hand. The signal kinds are those the
  data model lists; \<open>COM_GROUP_SIGNAL\<close> stands for a kind that the \<^verbatim>\<open>switch\<close>
  statements of \<^verbatim>\<open>Com.c\<close> do not name (their \<^verbatim>\<open>default\<close> branch). The sentinel
  \<^verbatim>\<open>COM_UPDATE_BIT_NOT_USED\<close> is \<open>None\<close>.
\<close>

datatype Com_SignalType =
  COM_SINT8 | COM_UINT8 | COM_SINT16 | COM_UINT16 | COM_SINT32 | COM_UINT32
| COM_UINT8N | COM_GROUP_SIGNAL

datatype Com_SignalEndiannessType = BIG | LITTLE | OPAQUE

text \<open>
  \<open>sig_ptr\<close> is the address of the I-PDU buffer the signal views (\<^verbatim>\<open>signal->ptr\<close>);
  \<open>initPtr\<close> points to the initial value.
\<close>

record Com_SignalConfigType =
  sig_ptr :: nat
  initPtr :: "byte list option"
  sig_type :: Com_SignalType
  HandleId :: nat
  BitPosition :: nat
  BitSize :: nat
  Endianness :: Com_SignalEndiannessType
  UpdateBit :: "nat option"

section \<open>Signal packing\<close>

text \<open>
  \<^verbatim>\<open>comStoreSignalValue\<close>: mask, sign extension, narrowing store to the destination.
  The shift by \<^verbatim>\<open>32 - signal->BitSize\<close> is defined in C for a bit size from 1 to 32;
  outside this range the model takes what \<open>drop_bit\<close> gives.
\<close>

definition comStoreSignalValue ::
  "Com_SignalConfigType \<Rightarrow> uint32_t \<Rightarrow> byte list option
     \<Rightarrow> fault + (Std_ReturnType \<times> byte list option)" where
  "comStoreSignalValue signal sigV0 SignalDataPtr =
     (let mask = drop_bit (32 - BitSize signal) (0xFFFFFFFF :: uint32_t);
          sigV = sigV0 AND mask;
          signmask = NOT (drop_bit 1 mask);
          signedV = (if sigV AND signmask \<noteq> 0 then sigV OR signmask else sigV);
          stored = (\<lambda>n v. case store_uint n SignalDataPtr v of
                             Inl f \<Rightarrow> Inl f
                           | Inr p \<Rightarrow> Inr (E_OK, p))
      in case sig_type signal of
           COM_SINT8 \<Rightarrow> stored 1 signedV
         | COM_UINT8 \<Rightarrow> stored 1 sigV
         | COM_SINT16 \<Rightarrow> stored 2 signedV
         | COM_UINT16 \<Rightarrow> stored 2 sigV
         | COM_SINT32 \<Rightarrow> stored 4 signedV
         | COM_UINT32 \<Rightarrow> stored 4 sigV
         | _ \<Rightarrow> Inr (E_NOT_OK, SignalDataPtr))"

text \<open>
  \<^verbatim>\<open>comGetSignalValue\<close>: the source value, zero-extended to 32 bits. \<open>Some v\<close> is
  \<^verbatim>\<open>E_OK\<close> with \<^verbatim>\<open>*sigV = v\<close>; \<open>None\<close> is \<^verbatim>\<open>E_NOT_OK\<close>, where \<^verbatim>\<open>*sigV\<close> is
  not written.
\<close>

definition comGetSignalValue ::
  "Com_SignalConfigType \<Rightarrow> byte list option \<Rightarrow> fault + uint32_t option" where
  "comGetSignalValue signal SignalDataPtr =
     (let loaded = (\<lambda>n. case load_uint n SignalDataPtr of
                           Inl f \<Rightarrow> Inl f
                         | Inr v \<Rightarrow> Inr (Some v))
      in case sig_type signal of
           COM_SINT8 \<Rightarrow> loaded 1
         | COM_UINT8 \<Rightarrow> loaded 1
         | COM_SINT16 \<Rightarrow> loaded 2
         | COM_UINT16 \<Rightarrow> loaded 2
         | COM_SINT32 \<Rightarrow> loaded 4
         | COM_UINT32 \<Rightarrow> loaded 4
         | _ \<Rightarrow> Inr None)"

text \<open>
  The functions below take the content \<open>buf\<close> of the buffer at \<^verbatim>\<open>signal->ptr\<close>; those
  that write it return its new content.
\<close>

definition comReceiveSignalBig ::
  "Com_SignalConfigType \<Rightarrow> byte list option \<Rightarrow> byte list
     \<Rightarrow> fault + (Std_ReturnType \<times> byte list option)" where
  "comReceiveSignalBig signal SignalDataPtr buf =
     (let sigV = Std_BitGetBigEndian buf (BitPosition signal) (BitSize signal)
      in comStoreSignalValue signal sigV SignalDataPtr)"

definition comSendSignalBig ::
  "Com_SignalConfigType \<Rightarrow> byte list option \<Rightarrow> byte list
     \<Rightarrow> fault + (Std_ReturnType \<times> byte list)" where
  "comSendSignalBig signal SignalDataPtr buf =
     (case comGetSignalValue signal SignalDataPtr of
        Inl f \<Rightarrow> Inl f
      | Inr (Some sigV) \<Rightarrow>
          Inr (E_OK, Std_BitSetBigEndian buf sigV (BitPosition signal) (BitSize signal))
      | Inr None \<Rightarrow> Inr (E_NOT_OK, buf))"

definition comReceiveSignalLittle ::
  "Com_SignalConfigType \<Rightarrow> byte list option \<Rightarrow> byte list
     \<Rightarrow> fault + (Std_ReturnType \<times> byte list option)" where
  "comReceiveSignalLittle signal SignalDataPtr buf =
     (let sigV = Std_BitGetLittleEndian buf (BitPosition signal) (BitSize signal)
      in comStoreSignalValue signal sigV SignalDataPtr)"

definition comSendSignalLittle ::
  "Com_SignalConfigType \<Rightarrow> byte list option \<Rightarrow> byte list
     \<Rightarrow> fault + (Std_ReturnType \<times> byte list)" where
  "comSendSignalLittle signal SignalDataPtr buf =
     (case comGetSignalValue signal SignalDataPtr of
        Inl f \<Rightarrow> Inl f
      | Inr (Some sigV) \<Rightarrow>
          Inr (E_OK, Std_BitSetLittleEndian buf sigV (BitPosition signal) (BitSize signal))
      | Inr None \<Rightarrow> Inr (E_NOT_OK, buf))"

text \<open>
  \<^verbatim>\<open>comReceiveSignal\<close>: the update-bit gate, then the byte copy or the endian codec.
  The result is the status, the destination object and the buffer.
\<close>

definition comReceiveSignal ::
  "Com_SignalConfigType \<Rightarrow> byte list option \<Rightarrow> byte list
     \<Rightarrow> fault + (Std_ReturnType \<times> byte list option \<times> byte list)" where
  "comReceiveSignal signal SignalDataPtr buf0 =
     (let gate = (case UpdateBit signal of
                    None \<Rightarrow> Some buf0
                  | Some u \<Rightarrow> if \<not> Std_BitGet buf0 u then None
                              else Some (Std_BitClear buf0 u))
      in case gate of
           None \<Rightarrow> Inr (E_NOT_OK, SignalDataPtr, buf0)
         | Some buf \<Rightarrow>
             if sig_type signal = COM_UINT8N \<or> Endianness signal = OPAQUE then
               (case memcpy SignalDataPtr (Some buf) (drop_bit 3 (BitSize signal)) of
                  Inl f \<Rightarrow> Inl f
                | Inr d \<Rightarrow> Inr (E_OK, Some d, buf))
             else
               (case (case Endianness signal of
                        BIG \<Rightarrow> comReceiveSignalBig signal SignalDataPtr buf
                      | LITTLE \<Rightarrow> comReceiveSignalLittle signal SignalDataPtr buf
                      | OPAQUE \<Rightarrow> Inr (E_NOT_OK, SignalDataPtr)) of
                  Inl f \<Rightarrow> Inl f
                | Inr (ret, d) \<Rightarrow> Inr (ret, d, buf)))"

text \<open>
  \<^verbatim>\<open>comSendSignal\<close>: the byte copy or the endian codec, then the update bit, which is
  set whatever the status of the write.
\<close>

definition comSendSignal ::
  "Com_SignalConfigType \<Rightarrow> byte list option \<Rightarrow> byte list
     \<Rightarrow> fault + (Std_ReturnType \<times> byte list)" where
  "comSendSignal signal SignalDataPtr buf0 =
     (case (if sig_type signal = COM_UINT8N \<or> Endianness signal = OPAQUE then
              (case memcpy (Some buf0) SignalDataPtr (drop_bit 3 (BitSize signal)) of
                 Inl f \<Rightarrow> Inl f
               | Inr b \<Rightarrow> Inr (E_OK, b))
            else
              (case Endianness signal of
                 BIG \<Rightarrow> comSendSignalBig signal SignalDataPtr buf0
               | LITTLE \<Rightarrow> comSendSignalLittle signal SignalDataPtr buf0
               | OPAQUE \<Rightarrow> Inr (E_NOT_OK, buf0))) of
        Inl f \<Rightarrow> Inl f
      | Inr (ret, buf) \<Rightarrow>
          (case UpdateBit signal of
             None \<Rightarrow> Inr (ret, buf)
           | Some u \<Rightarrow> Inr (ret, Std_BitSet buf u)))"

section \<open>I-PDU configuration and module state\<close>

text \<open>
  Modelled from the spec: the I-PDU structures of \<^verbatim>\<open>Com_Priv.h\<close>. An optional
  callback is \<open>True\<close> when a function is configured and \<open>False\<close> when the pointer is
  \<^verbatim>\<open>NULL\<close>; \<open>rxConfig\<close> and \<open>txConfig\<close> are \<open>None\<close> when the pointer is \<^verbatim>\<open>NULL\<close>.
  \<open>pdu_ptr\<close> is the address of the buffer of the I-PDU and \<open>pdu_length\<close> its length in
  bytes. The arrays of the configuration carry their lengths.
\<close>

record Com_IPduRxConfigType =
  RxNotification :: bool
  RxTOut :: bool
  FirstTimeout :: nat
  Timeout :: nat

record Com_IPduTxConfigType =
  FirstTime :: nat
  CycleTime :: nat
  TxPduId :: nat

record Com_IPduConfigType =
  pdu_ptr :: nat
  signals :: "Com_SignalConfigType list"
  rxConfig :: "Com_IPduRxConfigType option"
  txConfig :: "Com_IPduTxConfigType option"
  GroupRefMask :: uint32_t
  pdu_length :: nat

record Com_ConfigType =
  IPduConfigs :: "Com_IPduConfigType list"
  SignalConfigs :: "Com_SignalConfigType list"
  numOfGroups :: nat

definition numOfIPdus :: "Com_ConfigType \<Rightarrow> nat" where
  "numOfIPdus config = length (IPduConfigs config)"

definition numOfSignals :: "Com_ConfigType \<Rightarrow> nat" where
  "numOfSignals config = length (SignalConfigs config)"

record PduInfoType =
  SduDataPtr :: "byte list option"
  SduLength :: nat

text \<open>
  What the module does to its collaborators is recorded as a trace: a call of
  \<^verbatim>\<open>PduR_ComTransmit\<close> with its arguments and its result, and the callbacks invoked.
  Each event carries the index of the I-PDU it was made for.
\<close>

datatype Com_Event =
  PduR_ComTransmit_call nat nat PduInfoType Std_ReturnType
| RxNotification_call nat
| RxTOut_call nat

text \<open>
  The state: the group status word of the module context, the I-PDU buffers by address,
  the timer of the reception and of the transmission context of each I-PDU (by index of
  the I-PDU; every context object belongs to one I-PDU), and the trace. Timers count
  ticks and are never decremented below zero by the code, so they are natural numbers.
\<close>

record Com_State =
  GroupStatus :: uint32_t
  mem :: "nat \<Rightarrow> byte list"
  rx_timer :: "nat \<Rightarrow> nat"
  tx_timer :: "nat \<Rightarrow> nat"
  trace :: "Com_Event list"

text \<open>
  The lower layer: the result of \<^verbatim>\<open>PduR_ComTransmit\<close> is a function of what
  happened so far, of the handle and of the data.
\<close>

type_synonym PduR = "Com_Event list \<Rightarrow> nat \<Rightarrow> PduInfoType \<Rightarrow> Std_ReturnType"

section \<open>Initialisation of I-PDU data and update bits\<close>

fun comIPduDataInit_loop ::
  "Com_SignalConfigType list \<Rightarrow> (nat \<Rightarrow> byte list) \<Rightarrow> fault + (nat \<Rightarrow> byte list)" where
  "comIPduDataInit_loop [] m = Inr m"
| "comIPduDataInit_loop (signal # rest) m =
     (case comSendSignal signal (initPtr signal) (m (sig_ptr signal)) of
        Inl f \<Rightarrow> Inl f
      | Inr (ret, buf) \<Rightarrow> comIPduDataInit_loop rest (m(sig_ptr signal := buf)))"

definition comIPduDataInit ::
  "Com_IPduConfigType \<Rightarrow> (nat \<Rightarrow> byte list) \<Rightarrow> fault + (nat \<Rightarrow> byte list)" where
  "comIPduDataInit IPduConfig m = comIPduDataInit_loop (signals IPduConfig) m"

definition comTxClearUpdateBit ::
  "Com_IPduConfigType \<Rightarrow> (nat \<Rightarrow> byte list) \<Rightarrow> (nat \<Rightarrow> byte list)" where
  "comTxClearUpdateBit IPduConfig m =
     fold (\<lambda>signal m.
             case UpdateBit signal of
               None \<Rightarrow> m
             | Some u \<Rightarrow> m(sig_ptr signal := Std_BitClear (m (sig_ptr signal)) u))
          (signals IPduConfig) m"

section \<open>Group control\<close>

definition Com_Init :: "Com_State \<Rightarrow> Com_State" where
  "Com_Init st = st\<lparr>GroupStatus := 0\<rparr>"

definition Com_IpduGroupStart_body ::
  "Com_ConfigType \<Rightarrow> nat \<Rightarrow> bool \<Rightarrow> nat \<Rightarrow> Com_State \<Rightarrow> fault + Com_State" where
  "Com_IpduGroupStart_body config IpduGroupId initialize i st =
     (let IPduConfig = IPduConfigs config ! i
      in if GroupRefMask IPduConfig AND push_bit IpduGroupId 1 \<noteq> 0 then
           (case (if initialize then comIPduDataInit IPduConfig (mem st) else Inr (mem st)) of
              Inl f \<Rightarrow> Inl f
            | Inr m \<Rightarrow>
                (case rxConfig IPduConfig of
                   Some rx \<Rightarrow>
                     Inr (st\<lparr>mem := m,
                              rx_timer := (rx_timer st)
                                (i := if FirstTimeout rx > 0 then FirstTimeout rx
                                      else Timeout rx)\<rparr>)
                 | None \<Rightarrow>
                     (case txConfig IPduConfig of
                        Some tx \<Rightarrow>
                          Inr (st\<lparr>mem := m,
                                   tx_timer := (tx_timer st)
                                     (i := if FirstTime tx > 0 then FirstTime tx
                                           else CycleTime tx)\<rparr>)
                      | None \<Rightarrow> Inr (st\<lparr>mem := m\<rparr>))))
         else Inr st)"

fun Com_IpduGroupStart_loop ::
  "Com_ConfigType \<Rightarrow> nat \<Rightarrow> bool \<Rightarrow> nat list \<Rightarrow> Com_State \<Rightarrow> fault + Com_State" where
  "Com_IpduGroupStart_loop config IpduGroupId initialize [] st = Inr st"
| "Com_IpduGroupStart_loop config IpduGroupId initialize (i # rest) st =
     (case Com_IpduGroupStart_body config IpduGroupId initialize i st of
        Inl f \<Rightarrow> Inl f
      | Inr st' \<Rightarrow> Com_IpduGroupStart_loop config IpduGroupId initialize rest st')"

definition Com_IpduGroupStart ::
  "Com_ConfigType \<Rightarrow> nat \<Rightarrow> bool \<Rightarrow> Com_State \<Rightarrow> fault + Com_State" where
  "Com_IpduGroupStart config IpduGroupId initialize st =
     (if IpduGroupId < numOfGroups config then
        Com_IpduGroupStart_loop config IpduGroupId initialize [0 ..< numOfIPdus config]
          (st\<lparr>GroupStatus := GroupStatus st OR push_bit IpduGroupId 1\<rparr>)
      else Inr st)"

definition Com_IpduGroupStop :: "Com_ConfigType \<Rightarrow> nat \<Rightarrow> Com_State \<Rightarrow> Com_State" where
  "Com_IpduGroupStop config IpduGroupId st =
     (if IpduGroupId < numOfGroups config then
        st\<lparr>GroupStatus := GroupStatus st AND NOT (push_bit IpduGroupId 1)\<rparr>
      else st)"

section \<open>Signal interface\<close>

definition Com_ReceiveSignal ::
  "Com_ConfigType \<Rightarrow> nat \<Rightarrow> byte list option \<Rightarrow> Com_State
     \<Rightarrow> fault + (Std_ReturnType \<times> byte list option \<times> Com_State)" where
  "Com_ReceiveSignal config SignalId SignalDataPtr st =
     (if SignalId < numOfSignals config \<and> SignalDataPtr \<noteq> None then
        (let signal = SignalConfigs config ! SignalId
         in case comReceiveSignal signal SignalDataPtr (mem st (sig_ptr signal)) of
              Inl f \<Rightarrow> Inl f
            | Inr (ret, d, buf) \<Rightarrow> Inr (ret, d, st\<lparr>mem := (mem st)(sig_ptr signal := buf)\<rparr>))
      else Inr (E_NOT_OK, SignalDataPtr, st))"

definition Com_SendSignal ::
  "Com_ConfigType \<Rightarrow> nat \<Rightarrow> byte list option \<Rightarrow> Com_State
     \<Rightarrow> fault + (Std_ReturnType \<times> Com_State)" where
  "Com_SendSignal config SignalId SignalDataPtr st =
     (if SignalId < numOfSignals config then
        (let signal = SignalConfigs config ! SignalId
         in case comSendSignal signal SignalDataPtr (mem st (sig_ptr signal)) of
              Inl f \<Rightarrow> Inl f
            | Inr (ret, buf) \<Rightarrow> Inr (ret, st\<lparr>mem := (mem st)(sig_ptr signal := buf)\<rparr>))
      else Inr (E_NOT_OK, st))"

section \<open>I-PDU interface\<close>

text \<open>
  The call of \<^verbatim>\<open>PduR_ComTransmit\<close> for I-PDU \<open>i\<close>: the lower layer is asked, and the
  call is appended to the trace together with its result. A \<^verbatim>\<open>PduInfoType *\<close> handed
  in by the lower layer points to a structure; its data pointer may be \<^verbatim>\<open>NULL\<close>.
\<close>

definition PduR_ComTransmit ::
  "PduR \<Rightarrow> nat \<Rightarrow> nat \<Rightarrow> PduInfoType \<Rightarrow> Com_State \<Rightarrow> Std_ReturnType \<times> Com_State" where
  "PduR_ComTransmit pdur i handle PduInfo st =
     (let ret = pdur (trace st) handle PduInfo
      in (ret, st\<lparr>trace := trace st @ [PduR_ComTransmit_call i handle PduInfo ret]\<rparr>))"

definition Com_TriggerIPDUSend ::
  "Com_ConfigType \<Rightarrow> PduR \<Rightarrow> nat \<Rightarrow> Com_State \<Rightarrow> Std_ReturnType \<times> Com_State" where
  "Com_TriggerIPDUSend config pdur PduId st =
     (if PduId < numOfIPdus config then
        (let IPduConfig = IPduConfigs config ! PduId
         in case txConfig IPduConfig of
              Some tx \<Rightarrow>
                if GroupStatus st AND GroupRefMask IPduConfig \<noteq> 0 then
                  (let PduInfo = \<lparr>SduDataPtr = Some (mem st (pdu_ptr IPduConfig)),
                                  SduLength = pdu_length IPduConfig\<rparr>;
                       (ret, st1) = PduR_ComTransmit pdur PduId (TxPduId tx) PduInfo st
                   in if ret = E_OK then
                        (ret, st1\<lparr>tx_timer := (tx_timer st1)(PduId := CycleTime tx)\<rparr>)
                      else
                        (E_OK, st1\<lparr>tx_timer := (tx_timer st1)(PduId := 1)\<rparr>))
                else (E_NOT_OK, st)
            | None \<Rightarrow> (E_NOT_OK, st))
      else (E_NOT_OK, st))"

definition Com_RxIndication ::
  "Com_ConfigType \<Rightarrow> nat \<Rightarrow> PduInfoType \<Rightarrow> Com_State \<Rightarrow> fault + Com_State" where
  "Com_RxIndication config RxPduId PduInfo st =
     (if RxPduId < numOfIPdus config then
        (let IPduConfig = IPduConfigs config ! RxPduId
         in case rxConfig IPduConfig of
              Some rx \<Rightarrow>
                if GroupStatus st AND GroupRefMask IPduConfig \<noteq> 0 then
                  (if pdu_length IPduConfig \<le> SduLength PduInfo then
                     (case memcpy (Some (mem st (pdu_ptr IPduConfig))) (SduDataPtr PduInfo)
                             (pdu_length IPduConfig) of
                        Inl f \<Rightarrow> Inl f
                      | Inr buf \<Rightarrow>
                          (let st1 = st\<lparr>mem := (mem st)(pdu_ptr IPduConfig := buf),
                                        rx_timer := (rx_timer st)(RxPduId := Timeout rx)\<rparr>
                           in if RxNotification rx then
                                Inr (st1\<lparr>trace := trace st1 @ [RxNotification_call RxPduId]\<rparr>)
                              else Inr st1))
                   else Inr st)
                else Inr st
            | None \<Rightarrow> Inr st)
      else Inr st)"

definition Com_TriggerTransmit ::
  "Com_ConfigType \<Rightarrow> nat \<Rightarrow> PduInfoType \<Rightarrow> Com_State
     \<Rightarrow> fault + (Std_ReturnType \<times> PduInfoType \<times> Com_State)" where
  "Com_TriggerTransmit config PduId PduInfo st =
     (if PduId < numOfIPdus config then
        (let IPduConfig = IPduConfigs config ! PduId
         in if pdu_length IPduConfig \<le> SduLength PduInfo then
              (case memcpy (SduDataPtr PduInfo) (Some (mem st (pdu_ptr IPduConfig)))
                      (pdu_length IPduConfig) of
                 Inl f \<Rightarrow> Inl f
               | Inr d \<Rightarrow> Inr (E_OK, PduInfo\<lparr>SduDataPtr := Some d\<rparr>, st))
            else Inr (E_NOT_OK, PduInfo, st))
      else Inr (E_NOT_OK, PduInfo, st))"

section \<open>Main functions\<close>

definition Com_MainFunctionRx_body :: "Com_ConfigType \<Rightarrow> nat \<Rightarrow> Com_State \<Rightarrow> Com_State" where
  "Com_MainFunctionRx_body config i st =
     (let IPduConfig = IPduConfigs config ! i
      in case rxConfig IPduConfig of
           Some rx \<Rightarrow>
             if GroupStatus st AND GroupRefMask IPduConfig \<noteq> 0 then
               (if rx_timer st i > 0 then
                  (let st1 = st\<lparr>rx_timer := (rx_timer st)(i := rx_timer st i - 1)\<rparr>
                   in if rx_timer st1 i = 0 then
                        (if RxTOut rx then st1\<lparr>trace := trace st1 @ [RxTOut_call i]\<rparr>
                         else st1)
                      else st1)
                else st)
             else st
         | None \<Rightarrow> st)"

definition Com_MainFunctionRx :: "Com_ConfigType \<Rightarrow> Com_State \<Rightarrow> Com_State" where
  "Com_MainFunctionRx config st =
     fold (Com_MainFunctionRx_body config) [0 ..< numOfIPdus config] st"

definition Com_MainFunctionTx_body ::
  "Com_ConfigType \<Rightarrow> PduR \<Rightarrow> nat \<Rightarrow> Com_State \<Rightarrow> Com_State" where
  "Com_MainFunctionTx_body config pdur i st =
     (let IPduConfig = IPduConfigs config ! i
      in case txConfig IPduConfig of
           Some tx \<Rightarrow>
             if GroupStatus st AND GroupRefMask IPduConfig \<noteq> 0 then
               (if tx_timer st i > 0 then
                  (let st1 = st\<lparr>tx_timer := (tx_timer st)(i := tx_timer st i - 1)\<rparr>
                   in if tx_timer st1 i = 0 then
                        (let PduInfo = \<lparr>SduDataPtr = Some (mem st1 (pdu_ptr IPduConfig)),
                                        SduLength = pdu_length IPduConfig\<rparr>;
                             (ret, st2) = PduR_ComTransmit pdur i (TxPduId tx) PduInfo st1
                         in if ret = E_OK then
                              st2\<lparr>tx_timer := (tx_timer st2)(i := CycleTime tx),
                                  mem := comTxClearUpdateBit IPduConfig (mem st2)\<rparr>
                            else st2\<lparr>tx_timer := (tx_timer st2)(i := 1)\<rparr>)
                      else st1)
                else st)
             else st
         | None \<Rightarrow> st)"

definition Com_MainFunctionTx :: "Com_ConfigType \<Rightarrow> PduR \<Rightarrow> Com_State \<Rightarrow> Com_State" where
  "Com_MainFunctionTx config pdur st =
     fold (Com_MainFunctionTx_body config pdur) [0 ..< numOfIPdus config] st"

definition Com_MainFunction :: "Com_ConfigType \<Rightarrow> PduR \<Rightarrow> Com_State \<Rightarrow> Com_State" where
  "Com_MainFunction config pdur st = Com_MainFunctionTx config pdur (Com_MainFunctionRx config st)"

section \<open>Example configuration\<close>

text \<open>
  A small configuration on which the theorems are instantiated. I-PDU 0 is transmitted
  (cycle 5, first time 2, group 0) and carries an unsigned signal with an update bit;
  I-PDU 1 is received (timeout 4, first timeout 1, group 1) and carries a signed signal.
\<close>

definition demo_tx_signal :: Com_SignalConfigType where
  "demo_tx_signal =
     \<lparr>sig_ptr = 0, initPtr = Some [0x5A], sig_type = COM_UINT8, HandleId = 0,
      BitPosition = 0, BitSize = 8, Endianness = LITTLE, UpdateBit = Some 15\<rparr>"

definition demo_rx_signal :: Com_SignalConfigType where
  "demo_rx_signal =
     \<lparr>sig_ptr = 1, initPtr = Some [0xFB, 0xFF], sig_type = COM_SINT16, HandleId = 1,
      BitPosition = 3, BitSize = 4, Endianness = BIG, UpdateBit = None\<rparr>"

text \<open>A signal of a kind that the packing functions do not support, with an update bit.\<close>

definition demo_unsupported_signal :: Com_SignalConfigType where
  "demo_unsupported_signal =
     \<lparr>sig_ptr = 0, initPtr = None, sig_type = COM_GROUP_SIGNAL, HandleId = 2,
      BitPosition = 8, BitSize = 4, Endianness = BIG, UpdateBit = Some 14\<rparr>"

definition demo_config :: Com_ConfigType where
  "demo_config =
     \<lparr>IPduConfigs =
        [\<lparr>pdu_ptr = 0, signals = [demo_tx_signal], rxConfig = None,
          txConfig = Some \<lparr>FirstTime = 2, CycleTime = 5, TxPduId = 7\<rparr>,
          GroupRefMask = 1, pdu_length = 2\<rparr>,
         \<lparr>pdu_ptr = 1, signals = [demo_rx_signal],
          rxConfig = Some \<lparr>RxNotification = True, RxTOut = True,
                            FirstTimeout = 1, Timeout = 4\<rparr>,
          txConfig = None, GroupRefMask = 2, pdu_length = 2\<rparr>],
      SignalConfigs = [demo_tx_signal, demo_rx_signal, demo_unsupported_signal],
      numOfGroups = 2\<rparr>"

text \<open>A state in which no group is started; both buffers hold two bytes.\<close>

definition demo_state :: Com_State where
  "demo_state =
     \<lparr>GroupStatus = 0, mem = (\<lambda>a. if a = 0 then [0x80, 0x01] else if a = 1 then [0x12, 0x34] else []),
      rx_timer = (\<lambda>i. 0), tx_timer = (\<lambda>i. 0), trace = []\<rparr>"

text \<open>
  A state in which group 0 is started, the timer of I-PDU 0 fires at the next tick and
  the update bit of its signal is set.
\<close>

definition demo_started :: Com_State where
  "demo_started =
     \<lparr>GroupStatus = 1, mem = (\<lambda>a. if a = 0 then [0x5A, 0x80] else if a = 1 then [0x12, 0x34] else []),
      rx_timer = (\<lambda>i. 0), tx_timer = (\<lambda>i. if i = 0 then 1 else 0), trace = []\<rparr>"

text \<open>A lower layer that accepts every transmission.\<close>

definition pdur_ok :: PduR where
  "pdur_ok h i d = E_OK"

text \<open>
  The example state after signal 0 was sent with the value \<open>0x5A\<close>, and after it was
  received once.
\<close>

definition demo_sent :: Com_State where
  "demo_sent = demo_state\<lparr>mem := (mem demo_state)(0 := [0x5A, 0x81])\<rparr>"

definition demo_received :: Com_State where
  "demo_received = demo_sent\<lparr>mem := (mem demo_sent)(0 := [0x5A, 0x01])\<rparr>"

text \<open>The example state after the start of group 1, of group 0, and with only group 1 left.\<close>

definition demo_rx_started :: Com_State where
  "demo_rx_started = demo_state\<lparr>GroupStatus := 2, rx_timer := (rx_timer demo_state)(1 := 1)\<rparr>"

definition demo_stopped :: Com_State where
  "demo_stopped = demo_started\<lparr>GroupStatus := 2\<rparr>"

definition demo_tx_started :: Com_State where
  "demo_tx_started = demo_state\<lparr>GroupStatus := 1, tx_timer := (tx_timer demo_state)(0 := 2)\<rparr>"

text \<open>
  The example after the timeout of I-PDU 1, and after the reception of a frame for it.
\<close>

definition demo_rx_timed_out :: Com_State where
  "demo_rx_timed_out =
     demo_rx_started\<lparr>rx_timer := (rx_timer demo_rx_started)(1 := 0), trace := [RxTOut_call 1]\<rparr>"

definition demo_rx_rearmed :: Com_State where
  "demo_rx_rearmed =
     demo_rx_timed_out\<lparr>mem := (mem demo_rx_timed_out)(1 := [1, 2]),
                        rx_timer := (rx_timer demo_rx_timed_out)(1 := 4),
                        trace := [RxTOut_call 1, RxNotification_call 1]\<rparr>"

text \<open>A signed signal in a big-endian field that straddles a byte boundary.\<close>

definition demo_signed_signal :: Com_SignalConfigType where
  "demo_signed_signal =
     \<lparr>sig_ptr = 2, initPtr = Some [0xBC, 0xFA], sig_type = COM_SINT16, HandleId = 3,
      BitPosition = 13, BitSize = 12, Endianness = BIG, UpdateBit = Some 0\<rparr>"

text \<open>The example state after the start of group 0 with initialisation.\<close>

definition demo_initialised :: Com_State where
  "demo_initialised =
     demo_state\<lparr>GroupStatus := 1, mem := (mem demo_state)(0 := [0x5A, 0x81]),
                 tx_timer := (tx_timer demo_state)(0 := 2)\<rparr>"

text \<open>
  The example state after signal 2, of an unsupported kind, was sent, and after it was
  received.
\<close>

definition demo_unsupported_sent :: Com_State where
  "demo_unsupported_sent = demo_state\<lparr>mem := (mem demo_state)(0 := [0x80, 0x41])\<rparr>"

definition demo_unsupported_received :: Com_State where
  "demo_unsupported_received =
     demo_unsupported_sent\<lparr>mem := (mem demo_unsupported_sent)(0 := [0x80, 0x01])\<rparr>"

section \<open>Notions used in the statements\<close>

text \<open>
  The number of bytes of the application object that a signal reads on sending and writes
  on receiving: the copied bytes of a byte-array or opaque signal, the size of the C type
  of a scalar signal.
\<close>

definition sig_bytes :: "Com_SignalConfigType \<Rightarrow> nat" where
  "sig_bytes signal =
     (if sig_type signal = COM_UINT8N \<or> Endianness signal = OPAQUE then
        drop_bit 3 (BitSize signal)
      else case sig_type signal of
             COM_SINT8 \<Rightarrow> 1 | COM_UINT8 \<Rightarrow> 1
           | COM_SINT16 \<Rightarrow> 2 | COM_UINT16 \<Rightarrow> 2
           | COM_SINT32 \<Rightarrow> 4 | COM_UINT32 \<Rightarrow> 4
           | _ \<Rightarrow> 0)"

text \<open>
  Counting in a trace the timeout callbacks and the transmissions made for I-PDU \<open>i\<close>.
\<close>

fun is_timeout :: "nat \<Rightarrow> Com_Event \<Rightarrow> bool" where
  "is_timeout i (RxTOut_call j) = (j = i)"
| "is_timeout i e = False"

definition timeouts :: "nat \<Rightarrow> Com_Event list \<Rightarrow> nat" where
  "timeouts i tr = length (filter (is_timeout i) tr)"

fun is_transmit :: "nat \<Rightarrow> Com_Event \<Rightarrow> bool" where
  "is_transmit i (PduR_ComTransmit_call j h d r) = (j = i)"
| "is_transmit i e = False"

definition transmissions :: "nat \<Rightarrow> Com_Event list \<Rightarrow> nat" where
  "transmissions i tr = length (filter (is_transmit i) tr)"

text \<open>
  The bit positions of the field of a signal that goes through the endian codec; the
  index of a bit when the bits of each byte are counted from the most significant one;
  the sign extension of a field of width \<open>w\<close> as the spec words it; and the signed value
  of the C object of \<open>n\<close> bytes at the start of an application object.
\<close>

definition msb_index :: "nat \<Rightarrow> nat" where
  "msb_index p = 8 * (p div 8) + (7 - p mod 8)"

definition sig_positions :: "Com_SignalConfigType \<Rightarrow> nat list" where
  "sig_positions signal =
     (case Endianness signal of
        BIG \<Rightarrow> big_positions (BitPosition signal) (BitSize signal)
      | LITTLE \<Rightarrow> little_positions (BitPosition signal) (BitSize signal)
      | OPAQUE \<Rightarrow> [])"

definition sign_extend :: "nat \<Rightarrow> uint32_t \<Rightarrow> uint32_t" where
  "sign_extend w v =
     (let field = v AND mask w
      in if bit field (w - 1) then field OR NOT (mask w) else field)"

definition c_signed :: "nat \<Rightarrow> byte list \<Rightarrow> int" where
  "c_signed n m = signed_take_bit (8 * n - 1) (uint (bytes_word (take n m)))"

text \<open>
  The bits of the buffer that the value path of \<^verbatim>\<open>comSendSignal\<close> may write (the copied
  bytes, or the field); the condition under which the initial value of a signal can be
  sent without reading behind an object; and the signals that the start of group \<open>g\<close>
  initialises, in the order of initialisation.
\<close>

definition sig_written :: "Com_SignalConfigType \<Rightarrow> nat list" where
  "sig_written signal =
     (if sig_type signal = COM_UINT8N \<or> Endianness signal = OPAQUE then
        [0 ..< 8 * drop_bit 3 (BitSize signal)]
      else sig_positions signal)"

definition init_ok :: "Com_SignalConfigType \<Rightarrow> nat \<Rightarrow> bool" where
  "init_ok signal len =
     (case initPtr signal of
        None \<Rightarrow> False
      | Some v \<Rightarrow>
          sig_bytes signal \<le> length v
          \<and> (if sig_type signal = COM_UINT8N \<or> Endianness signal = OPAQUE
             then sig_bytes signal \<le> len else True))"

definition group_signals :: "Com_ConfigType \<Rightarrow> nat \<Rightarrow> Com_SignalConfigType list" where
  "group_signals config g =
     concat (map (\<lambda>IPduConfig.
                    if GroupRefMask IPduConfig AND push_bit g 1 \<noteq> 0 then signals IPduConfig
                    else [])
                 (IPduConfigs config))"

text \<open>
  The kinds that the packing functions support, and the application object after a
  signal was read into it from a buffer: the copied bytes of a byte-array or opaque
  signal; for a scalar signal the field extracted by the codec, sign-extended for a
  signed kind and masked to the field width for an unsigned kind, narrowed to the C type;
  the object as it was for an unsupported kind.
\<close>

definition sig_supported :: "Com_SignalConfigType \<Rightarrow> bool" where
  "sig_supported signal =
     (sig_type signal = COM_UINT8N \<or> Endianness signal = OPAQUE
      \<or> sig_type signal \<in> {COM_SINT8, COM_UINT8, COM_SINT16, COM_UINT16, COM_SINT32, COM_UINT32})"

definition received_object :: "Com_SignalConfigType \<Rightarrow> byte list \<Rightarrow> byte list \<Rightarrow> byte list" where
  "received_object signal buf dst =
     (if sig_type signal = COM_UINT8N \<or> Endianness signal = OPAQUE then
        take (sig_bytes signal) buf @ drop (sig_bytes signal) dst
      else if sig_type signal \<in> {COM_SINT8, COM_SINT16, COM_SINT32} then
        word_bytes (sig_bytes signal)
          (sign_extend (BitSize signal) (field_get buf (sig_positions signal)))
        @ drop (sig_bytes signal) dst
      else if sig_type signal \<in> {COM_UINT8, COM_UINT16, COM_UINT32} then
        word_bytes (sig_bytes signal)
          (field_get buf (sig_positions signal) AND mask (BitSize signal))
        @ drop (sig_bytes signal) dst
      else dst)"

section \<open>Properties of the bit codec\<close>

lemma length_Std_BitSet [simp]: "length (Std_BitSet buf p) = length buf"
  by (simp add: Std_BitSet_def)

lemma length_Std_BitClear [simp]: "length (Std_BitClear buf p) = length buf"
  by (simp add: Std_BitClear_def)

lemma bit_position_eq: "(p::nat) div 8 = q div 8 \<Longrightarrow> p mod 8 = q mod 8 \<Longrightarrow> p = q"
  by (metis div_mult_mod_eq)

lemma Std_BitGet_Std_BitSet:
  "Std_BitGet (Std_BitSet buf p) q = (if q = p then p < 8 * length buf else Std_BitGet buf q)"
proof (cases "q = p")
  case True
  then show ?thesis
    by (auto simp: Std_BitGet_def Std_BitSet_def bit_simps)
next
  case False
  then have "p div 8 \<noteq> q div 8 \<or> p mod 8 \<noteq> q mod 8"
    using bit_position_eq by blast
  with False show ?thesis
    by (auto simp: Std_BitGet_def Std_BitSet_def bit_simps nth_list_update)
qed

lemma Std_BitGet_Std_BitClear:
  "Std_BitGet (Std_BitClear buf p) q = (q \<noteq> p \<and> Std_BitGet buf q)"
proof (cases "q = p")
  case True
  then show ?thesis
    by (auto simp: Std_BitGet_def Std_BitClear_def bit_simps)
next
  case False
  then have "p div 8 \<noteq> q div 8 \<or> p mod 8 \<noteq> q mod 8"
    using bit_position_eq by blast
  with False show ?thesis
    by (auto simp: Std_BitGet_def Std_BitClear_def bit_simps nth_list_update)
qed

lemma length_field_set [simp]: "length (field_set buf ps v) = length buf"
  by (induction ps arbitrary: buf v) simp_all

lemma Std_BitGet_field_set_other:
  "q \<notin> set ps \<Longrightarrow> Std_BitGet (field_set buf ps v) q = Std_BitGet buf q"
  by (induction ps arbitrary: buf v) (auto simp: Std_BitGet_Std_BitSet Std_BitGet_Std_BitClear)

lemma bit_cons_word:
  "(if bit v 0 then 1 else 0) OR push_bit 1 (take_bit n (drop_bit 1 v))
     = take_bit (Suc n) (v :: uint32_t)"
proof (rule bit_word_eqI)
  fix k
  assume "k < LENGTH(32)"
  then show "bit ((if bit v 0 then 1 else 0) OR push_bit 1 (take_bit n (drop_bit 1 v))) k
          = bit (take_bit (Suc n) v) k"
    by (cases k)
       (auto simp: bit_simps simp flip: bit_Suc
          simp del: push_bit_Suc push_bit_of_Suc_0 drop_bit_of_Suc_0)
qed

lemma field_get_field_set:
  "distinct ps \<Longrightarrow> \<forall>p\<in>set ps. p < 8 * length buf
     \<Longrightarrow> field_get (field_set buf ps v) ps = take_bit (length ps) v"
proof (induction ps arbitrary: buf v)
  case Nil
  then show ?case by simp
next
  case (Cons p ps)
  let ?b = "if bit v 0 then Std_BitSet buf p else Std_BitClear buf p"
  have here: "Std_BitGet (field_set ?b ps (drop_bit 1 v)) p = bit v 0"
    using Cons.prems
    by (simp add: Std_BitGet_field_set_other Std_BitGet_Std_BitSet Std_BitGet_Std_BitClear)
  have rest: "field_get (field_set ?b ps (drop_bit 1 v)) ps = take_bit (length ps) (drop_bit 1 v)"
    using Cons.prems by (intro Cons.IH) auto
  show ?case
    using here rest bit_cons_word [of v "length ps"] by simp
qed

lemma field_get_cong:
  "\<forall>p\<in>set ps. Std_BitGet b1 p = Std_BitGet b2 p \<Longrightarrow> field_get b1 ps = field_get b2 ps"
  by (induction ps) auto

section \<open>Pull-mode transmission\<close>

text \<open>
  C9. For every I-PDU id below the number of I-PDUs and every out-frame whose capacity is
  at least the length of the I-PDU, \<^verbatim>\<open>Com_TriggerTransmit\<close> copies the first
  \<open>pdu_length\<close> bytes of the I-PDU buffer into the out-frame and returns \<^verbatim>\<open>E_OK\<close>.
  Neither the group status nor the direction of the I-PDU is asked for, and the state of
  the module (timers, buffers, trace) is returned as it was.
\<close>

theorem Com_TriggerTransmit_copies:
  assumes "PduId < numOfIPdus config"
    and "SduDataPtr PduInfo = Some out"
    and "SduLength PduInfo \<le> length out"
    and "pdu_length (IPduConfigs config ! PduId) \<le> SduLength PduInfo"
    and "pdu_length (IPduConfigs config ! PduId)
           \<le> length (mem st (pdu_ptr (IPduConfigs config ! PduId)))"
  shows "Com_TriggerTransmit config PduId PduInfo st =
           Inr (E_OK,
                PduInfo\<lparr>SduDataPtr :=
                  Some (take (pdu_length (IPduConfigs config ! PduId))
                          (mem st (pdu_ptr (IPduConfigs config ! PduId)))
                        @ drop (pdu_length (IPduConfigs config ! PduId)) out)\<rparr>,
                st)"
  using assms by (simp add: Com_TriggerTransmit_def memcpy_def Let_def)

text \<open>
  The received I-PDU 1 of the example, while no group is started: the two bytes of its
  buffer are copied into a frame of three bytes.
\<close>

theorem Com_TriggerTransmit_copies_witness:
  "rxConfig (IPduConfigs demo_config ! 1) \<noteq> None
   \<and> GroupStatus demo_state AND GroupRefMask (IPduConfigs demo_config ! 1) = 0
   \<and> Com_TriggerTransmit demo_config 1 \<lparr>SduDataPtr = Some [0xAA, 0xBB, 0xCC], SduLength = 3\<rparr>
        demo_state
       = Inr (E_OK, \<lparr>SduDataPtr = Some [0x12, 0x34, 0xCC], SduLength = 3\<rparr>, demo_state)"
  using Com_TriggerTransmit_copies
          [of 1 demo_config "\<lparr>SduDataPtr = Some [0xAA, 0xBB, 0xCC], SduLength = 3\<rparr>"
              "[0xAA, 0xBB, 0xCC]" demo_state]
  by (simp add: demo_config_def demo_state_def demo_rx_signal_def numOfIPdus_def)

section \<open>Sending a signal of an unsupported kind\<close>

lemma comSendSignal_unsupported:
  assumes "sig_type signal
             \<notin> {COM_SINT8, COM_UINT8, COM_SINT16, COM_UINT16, COM_SINT32, COM_UINT32, COM_UINT8N}"
    and "Endianness signal \<noteq> OPAQUE"
  shows "comSendSignal signal p buf =
           Inr (E_NOT_OK, case UpdateBit signal of None \<Rightarrow> buf | Some u \<Rightarrow> Std_BitSet buf u)"
  using assms
  by (cases "Endianness signal"; cases "sig_type signal")
     (simp_all add: comSendSignal_def comSendSignalBig_def comSendSignalLittle_def
        comGetSignalValue_def split: option.splits)

text \<open>
  C3, as the code has it. For every signal whose kind is unsupported by the send path
  (neither a byte array, nor opaque, nor one of the six scalar kinds),
  \<^verbatim>\<open>Com_SendSignal\<close> returns \<^verbatim>\<open>E_NOT_OK\<close> and writes nothing to the field of the
  signal. Without an update bit the state is unchanged; with an update bit the only
  change is that this bit of the buffer is set, since the update bit is set whatever the
  status of the write. The source pointer is not dereferenced.
\<close>

theorem Com_SendSignal_unsupported:
  assumes "SignalId < numOfSignals config"
    and "sig_type (SignalConfigs config ! SignalId)
           \<notin> {COM_SINT8, COM_UINT8, COM_SINT16, COM_UINT16, COM_SINT32, COM_UINT32, COM_UINT8N}"
    and "Endianness (SignalConfigs config ! SignalId) \<noteq> OPAQUE"
  shows "Com_SendSignal config SignalId p st =
           Inr (E_NOT_OK,
                case UpdateBit (SignalConfigs config ! SignalId) of
                  None \<Rightarrow> st
                | Some u \<Rightarrow>
                    st\<lparr>mem := (mem st)
                      (sig_ptr (SignalConfigs config ! SignalId) :=
                         Std_BitSet (mem st (sig_ptr (SignalConfigs config ! SignalId))) u)\<rparr>)"
  using assms
  by (simp add: Com_SendSignal_def comSendSignal_unsupported Let_def split: option.splits)

theorem Com_SendSignal_unsupported_witness:
  "Com_SendSignal demo_config 2 None demo_state =
     Inr (E_NOT_OK, demo_state\<lparr>mem := (mem demo_state)(0 := Std_BitSet (mem demo_state 0) 14)\<rparr>)"
  using Com_SendSignal_unsupported [of 2 demo_config None demo_state]
  by (simp add: demo_config_def demo_unsupported_signal_def numOfSignals_def)

text \<open>
  C3, as stated, fails: sending signal 2 of the example, whose kind is unsupported,
  returns \<^verbatim>\<open>E_NOT_OK\<close> and yet changes byte 1 of the buffer from \<open>0x01\<close> to \<open>0x41\<close>:
  update bit 14 is set.
\<close>

theorem Com_SendSignal_unsupported_sets_update_bit:
  "sig_type (SignalConfigs demo_config ! 2) = COM_GROUP_SIGNAL
   \<and> Endianness (SignalConfigs demo_config ! 2) = BIG
   \<and> UpdateBit (SignalConfigs demo_config ! 2) = Some 14
   \<and> mem demo_state 0 = [0x80, 0x01]
   \<and> \<not> Std_BitGet (mem demo_state 0) 14
   \<and> Com_SendSignal demo_config 2 (Some [1]) demo_state =
       Inr (E_NOT_OK, demo_state\<lparr>mem := (mem demo_state)(0 := [0x80, 0x41])\<rparr>)
   \<and> Std_BitGet [0x80, 0x41] 14"
  by (simp add: Com_SendSignal_def demo_config_def demo_unsupported_signal_def
        numOfSignals_def comSendSignal_def comSendSignalBig_def comGetSignalValue_def
        demo_state_def Std_BitSet_def Std_BitGet_def Let_def set_bit_eq_or)

section \<open>Sending from a null pointer\<close>

text \<open>
  C7. \<^verbatim>\<open>Com_SendSignal\<close> has no test of the source pointer: for signal 0 of the
  example, an unsigned 8-bit signal, a null source is dereferenced by
  \<^verbatim>\<open>comGetSignalValue\<close>, and no status is returned. \<^verbatim>\<open>Com_ReceiveSignal\<close> tests
  its pointer and returns \<^verbatim>\<open>E_NOT_OK\<close>.
\<close>

theorem Com_SendSignal_null_dereference:
  "Com_SendSignal demo_config 0 None demo_state = Inl NullPointer
   \<and> Com_ReceiveSignal demo_config 0 None demo_state = Inr (E_NOT_OK, None, demo_state)"
  by (simp add: Com_SendSignal_def Com_ReceiveSignal_def demo_config_def demo_tx_signal_def
        numOfSignals_def comSendSignal_def comSendSignalLittle_def comGetSignalValue_def
        load_uint_def Let_def)

section \<open>Triggered transmission\<close>

text \<open>
  C8. In the started example, where the timer of I-PDU 0 is 1 and update bit 15 is set, a
  tick of \<^verbatim>\<open>Com_MainFunctionTx\<close> with a successful transmission sets the timer to the
  cycle time 5 and clears the update bit; \<^verbatim>\<open>Com_TriggerIPDUSend\<close> with a successful
  transmission sets the timer to 5 and leaves the update bit set.
\<close>

theorem Com_TriggerIPDUSend_keeps_update_bit:
  "mem demo_started 0 = [0x5A, 0x80]
   \<and> mem (Com_MainFunctionTx demo_config pdur_ok demo_started) 0 = [0x5A, 0x00]
   \<and> tx_timer (Com_MainFunctionTx demo_config pdur_ok demo_started) 0 = 5
   \<and> fst (Com_TriggerIPDUSend demo_config pdur_ok 0 demo_started) = E_OK
   \<and> mem (snd (Com_TriggerIPDUSend demo_config pdur_ok 0 demo_started)) 0 = [0x5A, 0x80]
   \<and> tx_timer (snd (Com_TriggerIPDUSend demo_config pdur_ok 0 demo_started)) 0 = 5"
  by (simp add: Com_MainFunctionTx_def Com_MainFunctionTx_body_def Com_TriggerIPDUSend_def
        PduR_ComTransmit_def comTxClearUpdateBit_def Std_BitClear_def unset_bit_eq_and_not
        demo_config_def demo_tx_signal_def demo_rx_signal_def demo_started_def pdur_ok_def
        numOfIPdus_def Let_def)

section \<open>Status and update bit of the signal functions\<close>

lemma comSendSignal_length:
  "comSendSignal s p buf = Inr (r, buf') \<Longrightarrow> length buf' = length buf"
  by (auto simp: comSendSignal_def comSendSignalBig_def comSendSignalLittle_def memcpy_def
        Std_BitSetBigEndian_def Std_BitSetLittleEndian_def
      split: if_splits sum.splits option.splits Com_SignalEndiannessType.splits)

lemma comSendSignal_update_bit:
  "comSendSignal s p buf = Inr (r, buf') \<Longrightarrow> UpdateBit s = Some u \<Longrightarrow> u < 8 * length buf
     \<Longrightarrow> Std_BitGet buf' u"
  by (auto simp: comSendSignal_def comSendSignalBig_def comSendSignalLittle_def memcpy_def
        Std_BitSetBigEndian_def Std_BitSetLittleEndian_def Std_BitGet_Std_BitSet
      split: if_splits sum.splits option.splits Com_SignalEndiannessType.splits)

lemma comSendSignal_status:
  assumes "comSendSignal s p buf = Inr (r, buf')"
  shows "if sig_type s = COM_UINT8N \<or> Endianness s = OPAQUE
         then drop_bit 3 (BitSize s) \<le> length buf \<and> r = E_OK
         else (r = E_OK) =
                (sig_type s \<in> {COM_SINT8, COM_UINT8, COM_SINT16, COM_UINT16, COM_SINT32, COM_UINT32})"
  using assms
  by (cases "sig_type s")
     (auto simp: comSendSignal_def comSendSignalBig_def comSendSignalLittle_def memcpy_def
        comGetSignalValue_def
      split: if_splits sum.splits option.splits Com_SignalEndiannessType.splits)

lemma comReceiveSignal_gate_open:
  assumes "UpdateBit s = Some u" and "Std_BitGet buf u"
  shows "comReceiveSignal s p buf =
           comReceiveSignal (s\<lparr>UpdateBit := None\<rparr>) p (Std_BitClear buf u)"
  using assms
  by (cases "Endianness s")
     (simp_all add: comReceiveSignal_def comReceiveSignalBig_def comReceiveSignalLittle_def
        comStoreSignalValue_def)

lemma comReceiveSignal_gate_closed:
  assumes "UpdateBit s = Some u" and "\<not> Std_BitGet buf u"
  shows "comReceiveSignal s p buf = Inr (E_NOT_OK, p, buf)"
  using assms by (simp add: comReceiveSignal_def)

lemma sig_bytes_UpdateBit: "sig_bytes (s\<lparr>UpdateBit := x\<rparr>) = sig_bytes s"
  by (simp add: sig_bytes_def)

lemma demo_tx_ptr: "sig_ptr demo_tx_signal = 0"
  by (simp add: demo_tx_signal_def)

lemma demo_state_mem0: "mem demo_state 0 = [0x80, 0x01]"
  by (simp add: demo_state_def)

section \<open>Group start\<close>

lemma word_neq_0_bit: "(w :: uint32_t) \<noteq> 0 \<longleftrightarrow> (\<exists>n. bit w n)"
proof
  assume "w \<noteq> 0"
  show "\<exists>n. bit w n"
  proof (rule ccontr)
    assume "\<not> (\<exists>n. bit w n)"
    then have "w = 0"
      by (intro bit_eqI) simp
    with \<open>w \<noteq> 0\<close> show False ..
  qed
next
  assume "\<exists>n. bit w n"
  then show "w \<noteq> 0"
    by auto
qed

lemma group_enabled_after_start:
  fixes G M :: uint32_t
  assumes "M AND push_bit g 1 \<noteq> 0"
  shows "(G OR push_bit g 1) AND M \<noteq> 0"
proof -
  obtain n where "bit (M AND push_bit g 1) n"
    using assms word_neq_0_bit by blast
  then have "bit ((G OR push_bit g 1) AND M) n"
    by (auto simp: bit_simps)
  then show ?thesis
    using word_neq_0_bit by blast
qed

lemma Com_IpduGroupStart_body_GroupStatus:
  "Com_IpduGroupStart_body config g init j s = Inr s' \<Longrightarrow> GroupStatus s' = GroupStatus s"
  by (auto simp: Com_IpduGroupStart_body_def Let_def split: if_splits sum.splits option.splits)

lemma Com_IpduGroupStart_body_trace:
  "Com_IpduGroupStart_body config g init j s = Inr s' \<Longrightarrow> trace s' = trace s"
  by (auto simp: Com_IpduGroupStart_body_def Let_def split: if_splits sum.splits option.splits)

lemma Com_IpduGroupStart_body_rx_timer:
  assumes "Com_IpduGroupStart_body config g init j s = Inr s'"
    and "rxConfig (IPduConfigs config ! i) = Some rx"
    and "GroupRefMask (IPduConfigs config ! i) AND push_bit g 1 \<noteq> 0"
  shows "rx_timer s' i =
           (if j = i then (if FirstTimeout rx > 0 then FirstTimeout rx else Timeout rx)
            else rx_timer s i)"
  using assms
  by (auto simp: Com_IpduGroupStart_body_def Let_def split: if_splits sum.splits option.splits)

lemma Com_IpduGroupStart_body_tx_timer:
  assumes "Com_IpduGroupStart_body config g init j s = Inr s'"
    and "rxConfig (IPduConfigs config ! i) = None"
    and "txConfig (IPduConfigs config ! i) = Some tx"
    and "GroupRefMask (IPduConfigs config ! i) AND push_bit g 1 \<noteq> 0"
  shows "tx_timer s' i =
           (if j = i then (if FirstTime tx > 0 then FirstTime tx else CycleTime tx)
            else tx_timer s i)"
  using assms
  by (auto simp: Com_IpduGroupStart_body_def Let_def split: if_splits sum.splits option.splits)

lemma Com_IpduGroupStart_loop_GroupStatus:
  "Com_IpduGroupStart_loop config g init js s = Inr s' \<Longrightarrow> GroupStatus s' = GroupStatus s"
  by (induction js arbitrary: s)
     (auto split: sum.splits dest: Com_IpduGroupStart_body_GroupStatus)

lemma Com_IpduGroupStart_loop_trace:
  "Com_IpduGroupStart_loop config g init js s = Inr s' \<Longrightarrow> trace s' = trace s"
  by (induction js arbitrary: s)
     (auto split: sum.splits dest: Com_IpduGroupStart_body_trace)

lemma Com_IpduGroupStart_loop_rx_timer:
  assumes "Com_IpduGroupStart_loop config g init js s = Inr s'"
    and "rxConfig (IPduConfigs config ! i) = Some rx"
    and "GroupRefMask (IPduConfigs config ! i) AND push_bit g 1 \<noteq> 0"
  shows "rx_timer s' i =
           (if i \<in> set js then (if FirstTimeout rx > 0 then FirstTimeout rx else Timeout rx)
            else rx_timer s i)"
  using assms
proof (induction js arbitrary: s)
  case Nil
  then show ?case by simp
next
  case (Cons j js)
  from Cons.prems(1) obtain s1 where
    b: "Com_IpduGroupStart_body config g init j s = Inr s1"
    and l: "Com_IpduGroupStart_loop config g init js s1 = Inr s'"
    by (auto split: sum.splits)
  show ?case
    using Cons.IH [OF l Cons.prems(2,3)] Com_IpduGroupStart_body_rx_timer [OF b Cons.prems(2,3)]
    by auto
qed

lemma Com_IpduGroupStart_loop_tx_timer:
  assumes "Com_IpduGroupStart_loop config g init js s = Inr s'"
    and "rxConfig (IPduConfigs config ! i) = None"
    and "txConfig (IPduConfigs config ! i) = Some tx"
    and "GroupRefMask (IPduConfigs config ! i) AND push_bit g 1 \<noteq> 0"
  shows "tx_timer s' i =
           (if i \<in> set js then (if FirstTime tx > 0 then FirstTime tx else CycleTime tx)
            else tx_timer s i)"
  using assms
proof (induction js arbitrary: s)
  case Nil
  then show ?case by simp
next
  case (Cons j js)
  from Cons.prems(1) obtain s1 where
    b: "Com_IpduGroupStart_body config g init j s = Inr s1"
    and l: "Com_IpduGroupStart_loop config g init js s1 = Inr s'"
    by (auto split: sum.splits)
  show ?case
    using Cons.IH [OF l Cons.prems(2,3,4)]
      Com_IpduGroupStart_body_tx_timer [OF b Cons.prems(2,3,4)]
    by auto
qed

lemma Com_IpduGroupStart_enabled:
  assumes "g < numOfGroups config"
    and "Com_IpduGroupStart config g init st0 = Inr st"
    and "GroupRefMask P AND push_bit g 1 \<noteq> 0"
  shows "GroupStatus st AND GroupRefMask P \<noteq> 0"
  using assms group_enabled_after_start [of "GroupRefMask P" g "GroupStatus st0"]
  by (auto simp: Com_IpduGroupStart_def dest!: Com_IpduGroupStart_loop_GroupStatus)

lemma Com_IpduGroupStart_rx_timer:
  assumes "g < numOfGroups config" and "i < numOfIPdus config"
    and "Com_IpduGroupStart config g init st0 = Inr st"
    and "rxConfig (IPduConfigs config ! i) = Some rx"
    and "GroupRefMask (IPduConfigs config ! i) AND push_bit g 1 \<noteq> 0"
  shows "rx_timer st i = (if FirstTimeout rx > 0 then FirstTimeout rx else Timeout rx)"
  using assms(1,2) Com_IpduGroupStart_loop_rx_timer [OF _ assms(4,5), of init "[0 ..< numOfIPdus config]"] assms(3)
  by (simp add: Com_IpduGroupStart_def)

lemma Com_IpduGroupStart_tx_timer:
  assumes "g < numOfGroups config" and "i < numOfIPdus config"
    and "Com_IpduGroupStart config g init st0 = Inr st"
    and "rxConfig (IPduConfigs config ! i) = None"
    and "txConfig (IPduConfigs config ! i) = Some tx"
    and "GroupRefMask (IPduConfigs config ! i) AND push_bit g 1 \<noteq> 0"
  shows "tx_timer st i = (if FirstTime tx > 0 then FirstTime tx else CycleTime tx)"
  using assms(1,2) Com_IpduGroupStart_loop_tx_timer [OF _ assms(4,5,6), of init "[0 ..< numOfIPdus config]"] assms(3)
  by (simp add: Com_IpduGroupStart_def)

section \<open>Reception timeout\<close>

lemma Com_MainFunctionRx_body_other:
  "j \<noteq> i \<Longrightarrow>
     GroupStatus (Com_MainFunctionRx_body config j s) = GroupStatus s
     \<and> rx_timer (Com_MainFunctionRx_body config j s) i = rx_timer s i
     \<and> timeouts i (trace (Com_MainFunctionRx_body config j s)) = timeouts i (trace s)"
  by (simp add: Com_MainFunctionRx_body_def Let_def timeouts_def split: option.splits)

lemma Com_MainFunctionRx_body_self:
  assumes "rxConfig (IPduConfigs config ! i) = Some rx"
    and "GroupStatus s AND GroupRefMask (IPduConfigs config ! i) \<noteq> 0"
  shows "GroupStatus (Com_MainFunctionRx_body config i s) = GroupStatus s
     \<and> rx_timer (Com_MainFunctionRx_body config i s) i = rx_timer s i - 1
     \<and> timeouts i (trace (Com_MainFunctionRx_body config i s)) =
         timeouts i (trace s) + (if rx_timer s i = 1 \<and> RxTOut rx then 1 else 0)"
  using assms
  by (auto simp: Com_MainFunctionRx_body_def Let_def timeouts_def)

lemma Com_MainFunctionRx_fold:
  assumes "rxConfig (IPduConfigs config ! i) = Some rx"
    and "GroupStatus s AND GroupRefMask (IPduConfigs config ! i) \<noteq> 0"
    and "distinct js"
  shows "GroupStatus (fold (Com_MainFunctionRx_body config) js s) = GroupStatus s
     \<and> rx_timer (fold (Com_MainFunctionRx_body config) js s) i =
         (if i \<in> set js then rx_timer s i - 1 else rx_timer s i)
     \<and> timeouts i (trace (fold (Com_MainFunctionRx_body config) js s)) =
         timeouts i (trace s) + (if i \<in> set js \<and> rx_timer s i = 1 \<and> RxTOut rx then 1 else 0)"
  using assms(2,3)
proof (induction js arbitrary: s)
  case Nil
  then show ?case by simp
next
  case (Cons j js)
  let ?s1 = "Com_MainFunctionRx_body config j s"
  show ?case
  proof (cases "j = i")
    case True
    have b: "GroupStatus ?s1 = GroupStatus s" "rx_timer ?s1 i = rx_timer s i - 1"
      "timeouts i (trace ?s1) = timeouts i (trace s) + (if rx_timer s i = 1 \<and> RxTOut rx then 1 else 0)"
      using Com_MainFunctionRx_body_self [OF assms(1) Cons.prems(1)] True by simp_all
    have "i \<notin> set js"
      using Cons.prems(2) True by simp
    then show ?thesis
      using Cons.IH [of ?s1] Cons.prems b True by simp
  next
    case False
    have b: "GroupStatus ?s1 = GroupStatus s" "rx_timer ?s1 i = rx_timer s i"
      "timeouts i (trace ?s1) = timeouts i (trace s)"
      using Com_MainFunctionRx_body_other [OF False, of config s] by simp_all
    show ?thesis
      using Cons.IH [of ?s1] Cons.prems b False by simp
  qed
qed

lemma Com_MainFunctionRx_tick:
  assumes "i < numOfIPdus config"
    and "rxConfig (IPduConfigs config ! i) = Some rx"
    and "GroupStatus s AND GroupRefMask (IPduConfigs config ! i) \<noteq> 0"
  shows "GroupStatus (Com_MainFunctionRx config s) = GroupStatus s
     \<and> rx_timer (Com_MainFunctionRx config s) i = rx_timer s i - 1
     \<and> timeouts i (trace (Com_MainFunctionRx config s)) =
         timeouts i (trace s) + (if rx_timer s i = 1 \<and> RxTOut rx then 1 else 0)"
  using Com_MainFunctionRx_fold [OF assms(2,3), of "[0 ..< numOfIPdus config]"] assms(1)
  by (simp add: Com_MainFunctionRx_def)

lemma Com_MainFunctionRx_ticks:
  assumes "i < numOfIPdus config"
    and "rxConfig (IPduConfigs config ! i) = Some rx"
    and "GroupStatus s AND GroupRefMask (IPduConfigs config ! i) \<noteq> 0"
  shows "GroupStatus ((Com_MainFunctionRx config ^^ n) s) = GroupStatus s
     \<and> rx_timer ((Com_MainFunctionRx config ^^ n) s) i = rx_timer s i - n
     \<and> timeouts i (trace ((Com_MainFunctionRx config ^^ n) s)) =
         timeouts i (trace s)
           + (if 0 < rx_timer s i \<and> rx_timer s i \<le> n \<and> RxTOut rx then 1 else 0)"
proof (induction n)
  case 0
  then show ?case by auto
next
  case (Suc n)
  let ?s = "(Com_MainFunctionRx config ^^ n) s"
  have en: "GroupStatus ?s AND GroupRefMask (IPduConfigs config ! i) \<noteq> 0"
    using Suc assms(3) by simp
  show ?case
    using Com_MainFunctionRx_tick [OF assms(1,2) en] Suc
    by (auto simp: )
qed

text \<open>
  C6. Let a group be started whose mask contains a received I-PDU, and let no frame be
  delivered. With \<open>T0\<close> the armed value (the first timeout when it is positive, else
  the timeout), after \<open>n\<close> calls of \<^verbatim>\<open>Com_MainFunctionRx\<close> the timer is \<open>T0 - n\<close>,
  latched at 0 from tick \<open>T0\<close> on, and the number of timeout callbacks made for the I-PDU
  since the start is 1 when \<open>0 < T0 \<le> n\<close> and the callback is configured, else 0: the
  callback is invoked once, at the tick where the timer reaches 0, and never again. A
  frame of sufficient length accepted by \<^verbatim>\<open>Com_RxIndication\<close> re-arms the timer to the
  timeout.
\<close>

theorem rx_timeout_once:
  assumes "g < numOfGroups config" and "i < numOfIPdus config"
    and "rxConfig (IPduConfigs config ! i) = Some rx"
    and "GroupRefMask (IPduConfigs config ! i) AND push_bit g 1 \<noteq> 0"
    and "Com_IpduGroupStart config g initialize st0 = Inr st"
    and "T0 = (if FirstTimeout rx > 0 then FirstTimeout rx else Timeout rx)"
  shows "rx_timer ((Com_MainFunctionRx config ^^ n) st) i = T0 - n
     \<and> timeouts i (trace ((Com_MainFunctionRx config ^^ n) st)) =
         timeouts i (trace st0) + (if 0 < T0 \<and> T0 \<le> n \<and> RxTOut rx then 1 else 0)
     \<and> (\<forall>st'. pdu_length (IPduConfigs config ! i) \<le> SduLength PduInfo
            \<and> Com_RxIndication config i PduInfo ((Com_MainFunctionRx config ^^ n) st) = Inr st'
            \<longrightarrow> rx_timer st' i = Timeout rx)"
proof -
  have en: "GroupStatus st AND GroupRefMask (IPduConfigs config ! i) \<noteq> 0"
    using assms(1,5,4) by (rule Com_IpduGroupStart_enabled)
  have t0: "rx_timer st i = T0"
    using Com_IpduGroupStart_rx_timer [OF assms(1,2,5,3,4)] assms(6) by simp
  have tr: "trace st = trace st0"
    using assms(5)
    by (auto simp: Com_IpduGroupStart_def split: if_splits dest!: Com_IpduGroupStart_loop_trace)
  note ticks = Com_MainFunctionRx_ticks [OF assms(2,3) en, of n]
  have rearm: "rx_timer st' i = Timeout rx"
    if "pdu_length (IPduConfigs config ! i) \<le> SduLength PduInfo"
      and "Com_RxIndication config i PduInfo ((Com_MainFunctionRx config ^^ n) st) = Inr st'"
    for st'
    using that assms(2,3) en ticks
    by (auto simp: Com_RxIndication_def Let_def split: sum.splits if_splits)
  show ?thesis
    using ticks t0 tr rearm by auto
qed

text \<open>
  I-PDU 1 of the example (first timeout 1, timeout 4) after the start of group 1: after
  three ticks the timer is 0 and one timeout callback was made; a frame of two bytes
  re-arms the timer to 4.
\<close>

theorem rx_timeout_once_witness:
  "rx_timer ((Com_MainFunctionRx demo_config ^^ 3) demo_rx_started) 1 = 0
   \<and> timeouts 1 (trace ((Com_MainFunctionRx demo_config ^^ 3) demo_rx_started)) = 1
   \<and> Com_RxIndication demo_config 1 \<lparr>SduDataPtr = Some [1, 2], SduLength = 2\<rparr>
        ((Com_MainFunctionRx demo_config ^^ 3) demo_rx_started) = Inr demo_rx_rearmed
   \<and> rx_timer demo_rx_rearmed 1 = 4"
proof -
  have start: "Com_IpduGroupStart demo_config 1 False demo_state = Inr demo_rx_started"
    by (simp add: Com_IpduGroupStart_def Com_IpduGroupStart_body_def demo_config_def
          numOfIPdus_def demo_rx_started_def demo_state_def Let_def)
  have tick1: "Com_MainFunctionRx demo_config demo_rx_started = demo_rx_timed_out"
    by (simp add: Com_MainFunctionRx_def Com_MainFunctionRx_body_def demo_config_def
          numOfIPdus_def demo_rx_started_def demo_rx_timed_out_def demo_state_def Let_def)
  have tick2: "Com_MainFunctionRx demo_config demo_rx_timed_out = demo_rx_timed_out"
    by (simp add: Com_MainFunctionRx_def Com_MainFunctionRx_body_def demo_config_def
          numOfIPdus_def demo_rx_started_def demo_rx_timed_out_def demo_state_def Let_def)
  have ticks: "(Com_MainFunctionRx demo_config ^^ 3) demo_rx_started = demo_rx_timed_out"
    by (simp add: numeral_3_eq_3 tick1 tick2)
  have ind: "Com_RxIndication demo_config 1 \<lparr>SduDataPtr = Some [1, 2], SduLength = 2\<rparr>
               demo_rx_timed_out = Inr demo_rx_rearmed"
    by (simp add: Com_RxIndication_def demo_config_def numOfIPdus_def memcpy_def
          demo_rx_started_def demo_rx_timed_out_def demo_rx_rearmed_def demo_state_def Let_def)
  have h1: "1 < numOfGroups demo_config" and h2: "1 < numOfIPdus demo_config"
    and h3: "rxConfig (IPduConfigs demo_config ! 1) =
               Some \<lparr>RxNotification = True, RxTOut = True, FirstTimeout = 1, Timeout = 4\<rparr>"
    and h4: "GroupRefMask (IPduConfigs demo_config ! 1) AND push_bit 1 1 \<noteq> 0"
    by (simp_all add: demo_config_def numOfIPdus_def)
  have h6: "(1::nat) =
      (if FirstTimeout \<lparr>RxNotification = True, RxTOut = True, FirstTimeout = 1, Timeout = 4\<rparr> > 0
       then FirstTimeout \<lparr>RxNotification = True, RxTOut = True, FirstTimeout = 1, Timeout = 4\<rparr>
       else Timeout \<lparr>RxNotification = True, RxTOut = True, FirstTimeout = 1, Timeout = 4\<rparr>)"
    by simp
  have len: "pdu_length (IPduConfigs demo_config ! 1) = 2"
    by (simp add: demo_config_def)
  show ?thesis
    using rx_timeout_once [where n = 3
        and PduInfo = "\<lparr>SduDataPtr = Some [1, 2], SduLength = 2\<rparr>", OF h1 h2 h3 h4 start h6]
      ind
    unfolding ticks
    by (simp add: timeouts_def demo_config_def demo_state_def demo_rx_started_def
          demo_rx_timed_out_def demo_rx_rearmed_def)
qed

section \<open>Group gating and the transmission cycle\<close>

lemma Com_MainFunctionTx_body_gated:
  "GroupStatus s AND GroupRefMask (IPduConfigs config ! i) = 0
     \<Longrightarrow> Com_MainFunctionTx_body config pdur i s = s"
  by (simp add: Com_MainFunctionTx_body_def Let_def split: option.splits)

lemma Com_MainFunctionTx_body_other:
  assumes "j \<noteq> i"
  shows "GroupStatus (Com_MainFunctionTx_body config pdur j s) = GroupStatus s
     \<and> tx_timer (Com_MainFunctionTx_body config pdur j s) i = tx_timer s i
     \<and> (\<exists>new. trace (Com_MainFunctionTx_body config pdur j s) = trace s @ new
            \<and> (\<forall>e\<in>set new. \<not> is_transmit i e))"
  using assms
  by (simp add: Com_MainFunctionTx_body_def PduR_ComTransmit_def Let_def split: option.splits)

lemma Com_MainFunctionTx_body_self:
  assumes "txConfig (IPduConfigs config ! i) = Some tx"
    and "GroupStatus s AND GroupRefMask (IPduConfigs config ! i) \<noteq> 0"
    and "\<forall>h handle d. pdur h handle d = E_OK"
  shows "GroupStatus (Com_MainFunctionTx_body config pdur i s) = GroupStatus s
     \<and> tx_timer (Com_MainFunctionTx_body config pdur i s) i =
         (if tx_timer s i = 0 then 0 else if tx_timer s i = 1 then CycleTime tx
          else tx_timer s i - 1)
     \<and> transmissions i (trace (Com_MainFunctionTx_body config pdur i s)) =
         transmissions i (trace s) + (if tx_timer s i = 1 then 1 else 0)"
  using assms
  by (auto simp: Com_MainFunctionTx_body_def PduR_ComTransmit_def Let_def transmissions_def)

lemma transmissions_append_other:
  "\<forall>e\<in>set new. \<not> is_transmit i e \<Longrightarrow> transmissions i (tr @ new) = transmissions i tr"
  by (simp add: transmissions_def)

lemma Com_MainFunctionTx_fold_gated:
  assumes "GroupStatus s AND GroupRefMask (IPduConfigs config ! i) = 0"
  shows "GroupStatus (fold (Com_MainFunctionTx_body config pdur) js s) = GroupStatus s
     \<and> tx_timer (fold (Com_MainFunctionTx_body config pdur) js s) i = tx_timer s i
     \<and> (\<exists>new. trace (fold (Com_MainFunctionTx_body config pdur) js s) = trace s @ new
            \<and> (\<forall>e\<in>set new. \<not> is_transmit i e))"
  using assms
proof (induction js arbitrary: s)
  case Nil
  then show ?case by simp
next
  case (Cons j js)
  let ?s1 = "Com_MainFunctionTx_body config pdur j s"
  have b: "GroupStatus ?s1 = GroupStatus s \<and> tx_timer ?s1 i = tx_timer s i
     \<and> (\<exists>new. trace ?s1 = trace s @ new \<and> (\<forall>e\<in>set new. \<not> is_transmit i e))"
  proof (cases "j = i")
    case True
    then show ?thesis
      using Com_MainFunctionTx_body_gated [OF Cons.prems, of pdur] by simp
  next
    case False
    then show ?thesis
      by (rule Com_MainFunctionTx_body_other)
  qed
  then obtain new1 where n1: "trace ?s1 = trace s @ new1" "\<forall>e\<in>set new1. \<not> is_transmit i e"
    by blast
  have g1: "GroupStatus ?s1 AND GroupRefMask (IPduConfigs config ! i) = 0"
    using b Cons.prems by simp
  from Cons.IH [OF g1] obtain new2 where
    n2: "trace (fold (Com_MainFunctionTx_body config pdur) js ?s1) = trace ?s1 @ new2"
      "\<forall>e\<in>set new2. \<not> is_transmit i e"
    by blast
  have "trace (fold (Com_MainFunctionTx_body config pdur) (j # js) s) = trace s @ (new1 @ new2)"
    using n1 n2 by simp
  moreover have "\<forall>e\<in>set (new1 @ new2). \<not> is_transmit i e"
    using n1 n2 by auto
  ultimately have "\<exists>new. trace (fold (Com_MainFunctionTx_body config pdur) (j # js) s) = trace s @ new
            \<and> (\<forall>e\<in>set new. \<not> is_transmit i e)"
    by blast
  then show ?case
    using Cons.IH [OF g1] b by simp
qed

text \<open>
  C4. In every state in which the group mask of I-PDU \<open>i\<close> does not intersect the group
  status, a call of \<^verbatim>\<open>Com_MainFunctionTx\<close> leaves the transmission timer of the I-PDU
  unchanged and appends to the trace no call of \<^verbatim>\<open>PduR_ComTransmit\<close> for it, and
  \<^verbatim>\<open>Com_RxIndication\<close> for the I-PDU returns the state as it was: no byte is copied, no
  timer is re-armed and no callback is invoked.
\<close>

theorem group_gating:
  assumes "i < numOfIPdus config"
    and "GroupStatus st AND GroupRefMask (IPduConfigs config ! i) = 0"
  shows "tx_timer (Com_MainFunctionTx config pdur st) i = tx_timer st i
     \<and> (\<exists>new. trace (Com_MainFunctionTx config pdur st) = trace st @ new
            \<and> transmissions i new = 0)
     \<and> Com_RxIndication config i PduInfo st = Inr st"
proof -
  obtain new where "trace (Com_MainFunctionTx config pdur st) = trace st @ new"
    and "\<forall>e\<in>set new. \<not> is_transmit i e"
    using Com_MainFunctionTx_fold_gated [OF assms(2), of pdur "[0 ..< numOfIPdus config]"]
    by (auto simp: Com_MainFunctionTx_def)
  then have "\<exists>new. trace (Com_MainFunctionTx config pdur st) = trace st @ new
            \<and> transmissions i new = 0"
    by (auto simp: transmissions_def)
  then show ?thesis
    using Com_MainFunctionTx_fold_gated [OF assms(2), of pdur "[0 ..< numOfIPdus config]"] assms
    by (simp add: Com_MainFunctionTx_def Com_RxIndication_def Let_def split: option.splits)
qed

lemma Com_MainFunctionTx_fold:
  assumes "txConfig (IPduConfigs config ! i) = Some tx"
    and "\<forall>h handle d. pdur h handle d = E_OK"
    and "GroupStatus s AND GroupRefMask (IPduConfigs config ! i) \<noteq> 0"
    and "distinct js"
  shows "GroupStatus (fold (Com_MainFunctionTx_body config pdur) js s) = GroupStatus s
     \<and> tx_timer (fold (Com_MainFunctionTx_body config pdur) js s) i =
         (if i \<in> set js then
            (if tx_timer s i = 0 then 0 else if tx_timer s i = 1 then CycleTime tx
             else tx_timer s i - 1)
          else tx_timer s i)
     \<and> transmissions i (trace (fold (Com_MainFunctionTx_body config pdur) js s)) =
         transmissions i (trace s) + (if i \<in> set js \<and> tx_timer s i = 1 then 1 else 0)"
  using assms(3,4)
proof (induction js arbitrary: s)
  case Nil
  then show ?case by simp
next
  case (Cons j js)
  let ?s1 = "Com_MainFunctionTx_body config pdur j s"
  show ?case
  proof (cases "j = i")
    case True
    have b: "GroupStatus ?s1 = GroupStatus s"
      "tx_timer ?s1 i = (if tx_timer s i = 0 then 0 else if tx_timer s i = 1 then CycleTime tx
          else tx_timer s i - 1)"
      "transmissions i (trace ?s1) = transmissions i (trace s) + (if tx_timer s i = 1 then 1 else 0)"
      using Com_MainFunctionTx_body_self [OF assms(1) Cons.prems(1) assms(2)] True by simp_all
    have "i \<notin> set js"
      using Cons.prems(2) True by simp
    then show ?thesis
      using Cons.IH [of ?s1] Cons.prems b True by simp
  next
    case False
    have b: "GroupStatus ?s1 = GroupStatus s" "tx_timer ?s1 i = tx_timer s i"
      "transmissions i (trace ?s1) = transmissions i (trace s)"
      using Com_MainFunctionTx_body_other [OF False, of config pdur s]
      by (auto simp: transmissions_append_other)
    show ?thesis
      using Cons.IH [of ?s1] Cons.prems b False by simp
  qed
qed

lemma Com_MainFunctionTx_tick:
  assumes "i < numOfIPdus config"
    and "txConfig (IPduConfigs config ! i) = Some tx"
    and "\<forall>h handle d. pdur h handle d = E_OK"
    and "GroupStatus s AND GroupRefMask (IPduConfigs config ! i) \<noteq> 0"
  shows "GroupStatus (Com_MainFunctionTx config pdur s) = GroupStatus s
     \<and> tx_timer (Com_MainFunctionTx config pdur s) i =
         (if tx_timer s i = 0 then 0 else if tx_timer s i = 1 then CycleTime tx
          else tx_timer s i - 1)
     \<and> transmissions i (trace (Com_MainFunctionTx config pdur s)) =
         transmissions i (trace s) + (if tx_timer s i = 1 then 1 else 0)"
  using Com_MainFunctionTx_fold [OF assms(2,3,4), of "[0 ..< numOfIPdus config]"] assms(1)
  by (simp add: Com_MainFunctionTx_def)

text \<open>
  I-PDU 0 of the example while only group 1 is started: its timer stays at 1 although it
  would fire at this tick.
\<close>

theorem group_gating_witness:
  "tx_timer (Com_MainFunctionTx demo_config pdur_ok demo_stopped) 0 = 1
   \<and> (\<exists>new. trace (Com_MainFunctionTx demo_config pdur_ok demo_stopped) = trace demo_stopped @ new
          \<and> transmissions 0 new = 0)
   \<and> Com_RxIndication demo_config 0 \<lparr>SduDataPtr = Some [1, 2], SduLength = 2\<rparr> demo_stopped
        = Inr demo_stopped"
  using group_gating [where i = 0 and config = demo_config and st = demo_stopped
      and pdur = pdur_ok and PduInfo = "\<lparr>SduDataPtr = Some [1, 2], SduLength = 2\<rparr>"]
  by (simp add: demo_config_def numOfIPdus_def demo_stopped_def demo_started_def)

lemma cycle_step:
  assumes "0 < (C::nat)"
  shows "(if C - k mod C = 1 then C else C - k mod C - 1) = C - Suc k mod C"
proof -
  have "k mod C < C"
    using assms by simp
  then show ?thesis
    by (cases "Suc (k mod C) = C") (auto simp: mod_Suc)
qed

lemma cycle_fires:
  assumes "0 < (C::nat)"
  shows "(C - k mod C = 1) = (Suc k mod C = 0)"
proof -
  have "k mod C < C"
    using assms by simp
  then show ?thesis
    by (cases "Suc (k mod C) = C") (auto simp: mod_Suc)
qed

lemma Com_MainFunctionTx_ticks:
  assumes "i < numOfIPdus config"
    and "txConfig (IPduConfigs config ! i) = Some tx"
    and "\<forall>h handle d. pdur h handle d = E_OK"
    and "GroupStatus s AND GroupRefMask (IPduConfigs config ! i) \<noteq> 0"
    and "0 < CycleTime tx" and "0 < tx_timer s i"
  shows "GroupStatus ((Com_MainFunctionTx config pdur ^^ n) s) = GroupStatus s
     \<and> tx_timer ((Com_MainFunctionTx config pdur ^^ n) s) i =
         (if n < tx_timer s i then tx_timer s i - n
          else CycleTime tx - (n - tx_timer s i) mod CycleTime tx)"
proof (induction n)
  case 0
  then show ?case using assms(6) by simp
next
  case (Suc n)
  let ?s = "(Com_MainFunctionTx config pdur ^^ n) s"
  let ?C = "CycleTime tx" and ?t = "tx_timer s i"
  have en: "GroupStatus ?s AND GroupRefMask (IPduConfigs config ! i) \<noteq> 0"
    using Suc assms(4) by simp
  note tick = Com_MainFunctionTx_tick [OF assms(1,2,3) en]
  have cur: "tx_timer ?s i = (if n < ?t then ?t - n else ?C - (n - ?t) mod ?C)"
    using Suc by simp
  have "tx_timer (Com_MainFunctionTx config pdur ?s) i =
          (if Suc n < ?t then ?t - Suc n else ?C - (Suc n - ?t) mod ?C)"
  proof (cases "n < ?t")
    case True
    then show ?thesis
      using tick cur assms(5) by (auto simp: not_less less_Suc_eq)
  next
    case False
    then have le: "?t \<le> n" by simp
    have pos: "0 < ?C - (n - ?t) mod ?C"
      using assms(5) by simp
    have suc: "Suc n - ?t = Suc (n - ?t)"
      using le by simp
    have "tx_timer (Com_MainFunctionTx config pdur ?s) i =
            (if ?C - (n - ?t) mod ?C = 1 then ?C else ?C - (n - ?t) mod ?C - 1)"
      using tick cur False pos by simp
    then show ?thesis
      using False cycle_step [OF assms(5), of "n - ?t"] by (simp add: suc)
  qed
  then show ?case
    using tick Suc by simp
qed

lemma Com_MainFunctionTx_body_other_events:
  assumes "j \<noteq> i"
  shows "filter (is_transmit i) (trace (Com_MainFunctionTx_body config pdur j s))
           = filter (is_transmit i) (trace s)"
  using Com_MainFunctionTx_body_other [OF assms, of config pdur s] by auto

lemma Com_MainFunctionTx_body_self_events:
  assumes "txConfig (IPduConfigs config ! i) = Some tx"
    and "GroupStatus s AND GroupRefMask (IPduConfigs config ! i) \<noteq> 0"
    and "\<forall>h handle d. pdur h handle d = E_OK"
  shows "filter (is_transmit i) (trace (Com_MainFunctionTx_body config pdur i s)) =
           filter (is_transmit i) (trace s)
           @ (if tx_timer s i = 1 then
                [PduR_ComTransmit_call i (TxPduId tx)
                   \<lparr>SduDataPtr = Some (mem s (pdu_ptr (IPduConfigs config ! i))),
                    SduLength = pdu_length (IPduConfigs config ! i)\<rparr> E_OK]
              else [])"
  using assms
  by (auto simp: Com_MainFunctionTx_body_def PduR_ComTransmit_def Let_def)

lemma Com_MainFunctionTx_fold_other:
  assumes "i \<notin> set js"
  shows "GroupStatus (fold (Com_MainFunctionTx_body config pdur) js s) = GroupStatus s
     \<and> tx_timer (fold (Com_MainFunctionTx_body config pdur) js s) i = tx_timer s i
     \<and> filter (is_transmit i) (trace (fold (Com_MainFunctionTx_body config pdur) js s))
         = filter (is_transmit i) (trace s)"
  using assms
proof (induction js arbitrary: s)
  case Nil
  then show ?case by simp
next
  case (Cons j js)
  then have "j \<noteq> i" and "i \<notin> set js"
    by auto
  then show ?case
    using Cons.IH [of "Com_MainFunctionTx_body config pdur j s"]
      Com_MainFunctionTx_body_other [of j i config pdur s]
      Com_MainFunctionTx_body_other_events [of j i config pdur s]
    by simp
qed

lemma Com_MainFunctionTx_tick_events:
  assumes "i < numOfIPdus config"
    and "txConfig (IPduConfigs config ! i) = Some tx"
    and "\<forall>h handle d. pdur h handle d = E_OK"
    and "GroupStatus s AND GroupRefMask (IPduConfigs config ! i) \<noteq> 0"
  shows "filter (is_transmit i) (trace (Com_MainFunctionTx config pdur s)) =
           filter (is_transmit i) (trace s)
           @ (if tx_timer s i = 1 then
                [PduR_ComTransmit_call i (TxPduId tx)
                   \<lparr>SduDataPtr =
                      Some (mem (fold (Com_MainFunctionTx_body config pdur) [0 ..< i] s)
                              (pdu_ptr (IPduConfigs config ! i))),
                    SduLength = pdu_length (IPduConfigs config ! i)\<rparr> E_OK]
              else [])"
proof -
  let ?body = "Com_MainFunctionTx_body config pdur"
  let ?pre = "fold ?body [0 ..< i] s"
  have split: "[0 ..< numOfIPdus config] = [0 ..< i] @ i # [Suc i ..< numOfIPdus config]"
    using assms(1) by (metis le0 upt_add_eq_append upt_conv_Cons le_add_diff_inverse less_imp_le_nat)
  have pre: "GroupStatus ?pre = GroupStatus s" "tx_timer ?pre i = tx_timer s i"
    "filter (is_transmit i) (trace ?pre) = filter (is_transmit i) (trace s)"
    using Com_MainFunctionTx_fold_other [of i "[0 ..< i]" config pdur s] by simp_all
  have en: "GroupStatus ?pre AND GroupRefMask (IPduConfigs config ! i) \<noteq> 0"
    using pre(1) assms(4) by simp
  have self: "filter (is_transmit i) (trace (?body i ?pre)) =
           filter (is_transmit i) (trace s)
           @ (if tx_timer s i = 1 then
                [PduR_ComTransmit_call i (TxPduId tx)
                   \<lparr>SduDataPtr = Some (mem ?pre (pdu_ptr (IPduConfigs config ! i))),
                    SduLength = pdu_length (IPduConfigs config ! i)\<rparr> E_OK]
              else [])"
    using Com_MainFunctionTx_body_self_events [OF assms(2) en assms(3)] pre by simp
  have post: "filter (is_transmit i)
                (trace (fold ?body [Suc i ..< numOfIPdus config] (?body i ?pre)))
              = filter (is_transmit i) (trace (?body i ?pre))"
    using Com_MainFunctionTx_fold_other [of i "[Suc i ..< numOfIPdus config]" config pdur
        "?body i ?pre"] by simp
  show ?thesis
    unfolding Com_MainFunctionTx_def split fold_append fold_Cons comp_apply
    using post self by simp
qed

text \<open>
  C5. Let a group be started whose mask contains a transmitted I-PDU with a positive
  cycle time \<open>C\<close>, and let \<^verbatim>\<open>PduR_ComTransmit\<close> always return \<^verbatim>\<open>E_OK\<close>. With \<open>T0\<close>
  the initial offset armed at the start (the first time when it is positive, else the
  cycle time), the call of \<^verbatim>\<open>Com_MainFunctionTx\<close> at tick \<open>t = n + 1\<close> makes exactly one
  call of \<^verbatim>\<open>PduR_ComTransmit\<close> for the I-PDU when \<open>T0 \<le> t\<close> and \<open>C\<close> divides
  \<open>t - T0\<close>, and none otherwise: one transmission every \<open>C\<close> ticks after the initial
  offset. The call hands over the handle \<open>TxPduId\<close> of the I-PDU, its length, and its
  buffer as it is when the loop reaches the I-PDU, that is after the I-PDUs before it
  have been served in this tick.
\<close>

theorem tx_cycle:
  assumes "g < numOfGroups config" and "i < numOfIPdus config"
    and "rxConfig (IPduConfigs config ! i) = None"
    and "txConfig (IPduConfigs config ! i) = Some tx"
    and "GroupRefMask (IPduConfigs config ! i) AND push_bit g 1 \<noteq> 0"
    and "Com_IpduGroupStart config g initialize st0 = Inr st"
    and "\<forall>h handle d. pdur h handle d = E_OK"
    and "0 < CycleTime tx"
    and "T0 = (if FirstTime tx > 0 then FirstTime tx else CycleTime tx)"
  shows "filter (is_transmit i) (trace ((Com_MainFunctionTx config pdur ^^ Suc n) st)) =
           filter (is_transmit i) (trace ((Com_MainFunctionTx config pdur ^^ n) st))
           @ (if T0 \<le> Suc n \<and> (Suc n - T0) mod CycleTime tx = 0 then
                [PduR_ComTransmit_call i (TxPduId tx)
                   \<lparr>SduDataPtr =
                      Some (mem (fold (Com_MainFunctionTx_body config pdur) [0 ..< i]
                                   ((Com_MainFunctionTx config pdur ^^ n) st))
                              (pdu_ptr (IPduConfigs config ! i))),
                    SduLength = pdu_length (IPduConfigs config ! i)\<rparr> E_OK]
              else [])
     \<and> transmissions i (trace ((Com_MainFunctionTx config pdur ^^ Suc n) st)) =
           transmissions i (trace ((Com_MainFunctionTx config pdur ^^ n) st))
             + (if T0 \<le> Suc n \<and> (Suc n - T0) mod CycleTime tx = 0 then 1 else 0)"
proof -
  let ?s = "(Com_MainFunctionTx config pdur ^^ n) st"
  let ?C = "CycleTime tx"
  have en: "GroupStatus st AND GroupRefMask (IPduConfigs config ! i) \<noteq> 0"
    using assms(1,6,5) by (rule Com_IpduGroupStart_enabled)
  have t0: "tx_timer st i = T0"
    using Com_IpduGroupStart_tx_timer [OF assms(1,2,6,3,4,5)] assms(9) by simp
  have pos: "0 < tx_timer st i"
    using t0 assms(8,9) by simp
  note ticks = Com_MainFunctionTx_ticks [OF assms(2,4,7) en assms(8) pos, of n]
  have en': "GroupStatus ?s AND GroupRefMask (IPduConfigs config ! i) \<noteq> 0"
    using ticks en by simp
  note tick = Com_MainFunctionTx_tick [OF assms(2,4,7) en']
  note events = Com_MainFunctionTx_tick_events [OF assms(2,4,7) en']
  have cur: "tx_timer ?s i = (if n < T0 then T0 - n else ?C - (n - T0) mod ?C)"
    using ticks t0 by simp
  have fires: "(tx_timer ?s i = 1) = (T0 \<le> Suc n \<and> (Suc n - T0) mod ?C = 0)"
  proof (cases "n < T0")
    case True
    then show ?thesis
      using cur by auto
  next
    case False
    then have suc: "Suc n - T0 = Suc (n - T0)" by simp
    show ?thesis
      using cur False cycle_fires [OF assms(8), of "n - T0"] by (simp add: suc)
  qed
  show ?thesis
    using tick events unfolding fires by simp
qed

text \<open>
  I-PDU 0 of the example (cycle 5, first time 2, started at tick 0) is transmitted at
  ticks 2, 7, 12, 17: the only call made for it in the first two ticks is the one of
  tick 2, with handle 7 and the two bytes of its buffer, and tick 7 makes one more.
\<close>

theorem tx_cycle_witness:
  "filter (is_transmit 0) (trace ((Com_MainFunctionTx demo_config pdur_ok ^^ 2) demo_tx_started))
     = [PduR_ComTransmit_call 0 7 \<lparr>SduDataPtr = Some [0x80, 0x01], SduLength = 2\<rparr> E_OK]
   \<and> transmissions 0 (trace ((Com_MainFunctionTx demo_config pdur_ok ^^ 7) demo_tx_started)) =
       transmissions 0 (trace ((Com_MainFunctionTx demo_config pdur_ok ^^ 6) demo_tx_started)) + 1"
proof -
  have start: "Com_IpduGroupStart demo_config 0 False demo_state = Inr demo_tx_started"
    by (simp add: Com_IpduGroupStart_def Com_IpduGroupStart_body_def demo_config_def
          numOfIPdus_def demo_tx_started_def demo_state_def Let_def)
  have h: "0 < numOfGroups demo_config" "0 < numOfIPdus demo_config"
    "rxConfig (IPduConfigs demo_config ! 0) = None"
    "txConfig (IPduConfigs demo_config ! 0) = Some \<lparr>FirstTime = 2, CycleTime = 5, TxPduId = 7\<rparr>"
    "GroupRefMask (IPduConfigs demo_config ! 0) AND push_bit 0 1 \<noteq> 0"
    by (simp_all add: demo_config_def numOfIPdus_def)
  have ok: "\<forall>h handle d. pdur_ok h handle d = E_OK"
    by (simp add: pdur_ok_def)
  have c: "0 < CycleTime \<lparr>FirstTime = 2, CycleTime = 5, TxPduId = 7\<rparr>"
    and t: "(2::nat) = (if FirstTime \<lparr>FirstTime = 2, CycleTime = 5, TxPduId = 7\<rparr> > 0
                 then FirstTime \<lparr>FirstTime = 2, CycleTime = 5, TxPduId = 7\<rparr>
                 else CycleTime \<lparr>FirstTime = 2, CycleTime = 5, TxPduId = 7\<rparr>)"
    by simp_all
  note cycle = tx_cycle [OF h start ok c t]
  have tick1: "(Com_MainFunctionTx demo_config pdur_ok ^^ 1) demo_tx_started
                 = demo_tx_started\<lparr>tx_timer := (tx_timer demo_tx_started)(0 := 1)\<rparr>"
    by (simp add: Com_MainFunctionTx_def Com_MainFunctionTx_body_def demo_config_def
          numOfIPdus_def demo_tx_started_def demo_state_def Let_def)
  have two: "Suc 1 = 2" and seven: "Suc 6 = 7"
    by simp_all
  have frame: "pdu_ptr (IPduConfigs demo_config ! 0) = 0"
    "pdu_length (IPduConfigs demo_config ! 0) = 2"
    by (simp_all add: demo_config_def)
  have first: "filter (is_transmit 0)
                 (trace ((Com_MainFunctionTx demo_config pdur_ok ^^ 2) demo_tx_started))
     = [PduR_ComTransmit_call 0 7 \<lparr>SduDataPtr = Some [0x80, 0x01], SduLength = 2\<rparr> E_OK]"
    using cycle [of 1] unfolding two tick1 frame
    by (simp add: demo_tx_started_def demo_state_def)
  have second: "transmissions 0 (trace ((Com_MainFunctionTx demo_config pdur_ok ^^ 7) demo_tx_started)) =
       transmissions 0 (trace ((Com_MainFunctionTx demo_config pdur_ok ^^ 6) demo_tx_started)) + 1"
    using cycle [of 6] unfolding seven by simp
  show ?thesis
    using first second by simp
qed

section \<open>Sign extension and the signed round trip\<close>

lemma split8: "k < 8 \<Longrightarrow> (8 * q + k) div 8 = q \<and> (8 * q + k) mod 8 = (k::nat)"
  by simp

lemma msb_index_div: "msb_index p div 8 = p div 8"
  using split8 [of "7 - p mod 8" "p div 8"] by (simp only: msb_index_def)

lemma msb_index_mod: "msb_index p mod 8 = 7 - p mod 8"
  using split8 [of "7 - p mod 8" "p div 8"] by (simp only: msb_index_def)

lemma msb_index_involution: "msb_index (msb_index p) = p"
proof -
  have "p mod 8 < 8" by simp
  then have "7 - (7 - p mod 8) = p mod 8" by arith
  then have "msb_index (msb_index p) = 8 * (p div 8) + p mod 8"
    unfolding msb_index_def [of "msb_index p"] msb_index_div msb_index_mod by simp
  then show ?thesis by simp
qed

lemma msb_index_step: "msb_index (if p mod 8 = 0 then p + 15 else p - 1) = Suc (msb_index p)"
proof (cases "p mod 8 = 0")
  case True
  then obtain q where p: "p = 8 * q"
    by auto
  have "p + 15 = 8 * Suc q + 7"
    using p by simp
  then have "(p + 15) div 8 = Suc q \<and> (p + 15) mod 8 = 7"
    using split8 [of 7 "Suc q"] by simp
  moreover have "p div 8 = q \<and> p mod 8 = 0"
    using p by simp
  ultimately show ?thesis
    using True by (simp add: msb_index_def)
next
  case False
  define q r where "q = p div 8" and "r = p mod 8"
  have p: "p = 8 * q + r" and r: "0 < r" "r < 8"
    using False by (simp_all add: q_def r_def)
  have "p - 1 = 8 * q + (r - 1)"
    using p r by simp
  then have "(p - 1) div 8 = q \<and> (p - 1) mod 8 = r - 1"
    using split8 [of "r - 1" q] r by simp
  then show ?thesis
    using False r by (simp add: msb_index_def flip: q_def r_def) 
qed

lemma big_walk_msb: "big_walk p n = map msb_index [msb_index p ..< msb_index p + n]"
proof (induction n arbitrary: p)
  case 0
  then show ?case by simp
next
  case (Suc n)
  have "big_walk p (Suc n) = p # map msb_index [Suc (msb_index p) ..< Suc (msb_index p) + n]"
    using Suc [of "if p mod 8 = 0 then p + 15 else p - 1"] msb_index_step [of p] 
    by (simp del: upt_Suc)
  also have "\<dots> = map msb_index (msb_index p # [Suc (msb_index p) ..< Suc (msb_index p) + n])"
    by (simp add: msb_index_involution del: upt_Suc)
  also have "msb_index p # [Suc (msb_index p) ..< Suc (msb_index p) + n]
               = [msb_index p ..< msb_index p + Suc n]"
    by (simp add: upt_conv_Cons del: upt_Suc)
  finally show ?case .
qed

lemma distinct_big_walk: "distinct (big_walk p n)"
proof -
  have "inj_on msb_index (set [msb_index p ..< msb_index p + n])"
    by (rule inj_on_inverseI [where g = msb_index]) (simp add: msb_index_involution)
  then show ?thesis
    unfolding big_walk_msb by (simp add: distinct_map)
qed

lemma length_big_walk [simp]: "length (big_walk p n) = n"
  by (induction n arbitrary: p) simp_all

lemma sig_positions_props:
  "distinct (sig_positions s)"
  "Endianness s \<noteq> OPAQUE \<Longrightarrow> length (sig_positions s) = BitSize s"
  by (cases "Endianness s";
      simp add: sig_positions_def big_positions_def little_positions_def distinct_big_walk)+

lemma length_word_bytes [simp]: "length (word_bytes n v) = n"
  by (induction n arbitrary: v) simp_all

lemma bytes_word_word_bytes: "bytes_word (word_bytes n v) = take_bit (8 * n) v"
proof (induction n arbitrary: v)
  case 0
  then show ?case by simp
next
  case (Suc n)
  have "ucast (ucast v :: byte) OR push_bit 8 (take_bit (8 * n) (drop_bit 8 v))
          = take_bit (8 + 8 * n) v"
    by (rule bit_word_eqI) (auto simp: bit_simps)
  then show ?case
    using Suc by simp
qed

lemma all_ones: "(0xFFFFFFFF :: uint32_t) = - 1"
  by simp

lemma mask_code:
  assumes "1 \<le> w" and "w \<le> 32"
  shows "drop_bit (32 - w) (0xFFFFFFFF :: uint32_t) = mask w"
  unfolding all_ones
  using assms by (intro bit_word_eqI) (auto simp: bit_simps)

lemma signmask_code:
  assumes "1 \<le> w" and "w \<le> 32"
  shows "NOT (drop_bit 1 (mask w :: uint32_t)) = NOT (mask (w - 1))"
proof -
  have "drop_bit 1 (mask w :: uint32_t) = mask (w - 1)"
    using assms by (intro bit_word_eqI) (auto simp: bit_simps)
  then show ?thesis by simp
qed

lemma sign_bit_test:
  assumes "1 \<le> w" and "w \<le> 32"
  shows "((v AND mask w) AND NOT (mask (w - 1)) \<noteq> (0 :: uint32_t)) = bit (v AND mask w) (w - 1)"
proof
  assume "(v AND mask w) AND NOT (mask (w - 1)) \<noteq> 0"
  then obtain k where "bit ((v AND mask w) AND NOT (mask (w - 1))) k"
    using word_neq_0_bit by blast
  then have "bit (v AND mask w) k" and "k < w" and "w - 1 \<le> k"
    by (auto simp: bit_simps)
  then have "k = w - 1" by simp
  with \<open>bit (v AND mask w) k\<close> show "bit (v AND mask w) (w - 1)" by simp
next
  assume "bit (v AND mask w) (w - 1)"
  then have "bit ((v AND mask w) AND NOT (mask (w - 1))) (w - 1)"
    using assms by (auto simp: bit_simps)
  then show "(v AND mask w) AND NOT (mask (w - 1)) \<noteq> 0"
    by auto
qed

lemma sign_bits_or:
  assumes "1 \<le> w" and "bit (f :: uint32_t) (w - 1)"
  shows "f OR NOT (mask (w - 1)) = f OR NOT (mask w)"
proof (rule bit_word_eqI)
  fix k
  assume "k < LENGTH(32)"
  have "k = w - 1 \<or> k < w - 1 \<or> w \<le> k"
    using assms(1) by arith
  then show "bit (f OR NOT (mask (w - 1))) k = bit (f OR NOT (mask w)) k"
    using assms by (auto simp: bit_simps)
qed

lemma sign_extension_code:
  assumes "1 \<le> w" and "w \<le> 32"
  shows "(let mask = drop_bit (32 - w) (0xFFFFFFFF :: uint32_t);
              sigV = v AND mask;
              signmask = NOT (drop_bit 1 mask)
          in if sigV AND signmask \<noteq> 0 then sigV OR signmask else sigV)
         = sign_extend w v"
proof -
  have m: "drop_bit (32 - w) (0xFFFFFFFF :: uint32_t) = mask w"
    using assms by (rule mask_code)
  have sm: "NOT (drop_bit 1 (mask w :: uint32_t)) = NOT (mask (w - 1))"
    using assms by (rule signmask_code)
  note test = sign_bit_test [OF assms, of v]
  show ?thesis
    unfolding Let_def m sm test sign_extend_def
    using sign_bits_or [OF assms(1), of "v AND mask w"] by auto
qed

lemma bit_signed_range:
  assumes "- (2 ^ m) \<le> (x::int)" and "x < 2 ^ m" and "m \<le> k"
  shows "bit x k = bit x m"
proof -
  have "signed_take_bit m x = x"
    using assms by (simp add: signed_take_bit_int_eq_self_iff)
  then have "bit x k = bit (signed_take_bit m x) k"
    by simp
  also have "\<dots> = bit x m"
    using assms(3) by (simp add: bit_signed_take_bit_iff min_def)
  finally show ?thesis .
qed

lemma sign_extend_round_trip:
  assumes "1 \<le> w" and "w \<le> 32"
    and "- (2 ^ (w - 1)) \<le> x" and "x < 2 ^ (w - 1)"
  shows "take_bit b (sign_extend w (take_bit w (take_bit b (word_of_int x :: uint32_t))))
           = take_bit b (word_of_int x)"
proof (rule bit_word_eqI)
  fix k
  assume k: "k < LENGTH(32)"
  let ?xw = "word_of_int x :: uint32_t"
  let ?f = "take_bit w (take_bit b ?xw)"
  have high: "bit x j = bit x (w - 1)" if "w - 1 \<le> j" for j
    using bit_signed_range [OF assms(3,4) that] .
  have xw: "bit ?xw j = (j < 32 \<and> bit x j)" for j
    by (simp add: bit_simps)
  have f: "bit ?f j = (j < w \<and> j < b \<and> j < 32 \<and> bit x j)" for j
    by (auto simp: bit_simps)
  have fm: "?f AND mask w = ?f"
    by (rule bit_word_eqI) (auto simp: bit_simps)
  show "bit (take_bit b (sign_extend w ?f)) k = bit (take_bit b ?xw) k"
  proof (cases "k < w")
    case True
    then show ?thesis
      using k by (auto simp: sign_extend_def Let_def fm bit_simps)
  next
    case False
    then have "w - 1 \<le> k" by simp
    then have "bit x k = bit x (w - 1)"
      by (rule high)
    moreover have "k < b \<Longrightarrow> w - 1 < b"
      using False by simp
    ultimately show ?thesis
      using k False assms(1,2)
      by (auto simp: sign_extend_def Let_def fm bit_simps)
  qed
qed

lemma c_signed_stored:
  assumes "take_bit (8 * n) W = take_bit (8 * n) (word_of_int x :: uint32_t)"
    and "1 \<le> n" and "n \<le> 4"
    and "- (2 ^ (8 * n - 1)) \<le> x" and "x < 2 ^ (8 * n - 1)"
  shows "c_signed n (word_bytes n W @ rest) = x"
proof -
  have "bytes_word (take n (word_bytes n W @ rest)) = take_bit (8 * n) (word_of_int x)"
    using assms(1) by (simp add: bytes_word_word_bytes)
  then have "c_signed n (word_bytes n W @ rest)
               = signed_take_bit (8 * n - 1) (take_bit (8 * n) (take_bit 32 x))"
    by (simp add: c_signed_def unsigned_take_bit_eq uint_word_of_int_eq)
  also have "\<dots> = signed_take_bit (8 * n - 1) (take_bit (8 * n) x)"
    using assms(3) by (simp add: min_def)
  also have "\<dots> = signed_take_bit (8 * n - 1) x"
  proof -
    have "\<not> 8 * n \<le> 8 * n - 1"
      using assms(2) by simp
    then show ?thesis
      by (simp only: signed_take_bit_take_bit if_False)
  qed
  also have "\<dots> = x"
    using assms(4,5) by (simp add: signed_take_bit_int_eq_self_iff)
  finally show ?thesis .
qed

lemma sig_bytes_signed:
  assumes "sig_type s \<in> {COM_SINT8, COM_SINT16, COM_SINT32}" and "Endianness s \<noteq> OPAQUE"
  shows "1 \<le> sig_bytes s \<and> sig_bytes s \<le> 4"
  using assms by (auto simp: sig_bytes_def)

lemma comGetSignalValue_signed:
  assumes "sig_type s \<in> {COM_SINT8, COM_SINT16, COM_SINT32}" and "Endianness s \<noteq> OPAQUE"
  shows "comGetSignalValue s (Some (word_bytes (sig_bytes s) v))
           = Inr (Some (take_bit (8 * sig_bytes s) v))"
  using assms bytes_word_word_bytes [of "sig_bytes s" v]
  by (auto simp: comGetSignalValue_def load_uint_def sig_bytes_def)

lemma comStoreSignalValue_signed:
  assumes "sig_type s \<in> {COM_SINT8, COM_SINT16, COM_SINT32}" and "Endianness s \<noteq> OPAQUE"
    and "1 \<le> BitSize s" and "BitSize s \<le> 32"
    and "sig_bytes s \<le> length dst"
  shows "comStoreSignalValue s v (Some dst)
           = Inr (E_OK, Some (word_bytes (sig_bytes s) (sign_extend (BitSize s) v)
                                @ drop (sig_bytes s) dst))"
  using assms sign_extension_code [OF assms(3,4), of v]
  by (auto simp: comStoreSignalValue_def store_uint_def sig_bytes_def Let_def)

lemma comSendSignal_scalar:
  assumes "sig_type s \<noteq> COM_UINT8N" and "Endianness s \<noteq> OPAQUE"
    and "comGetSignalValue s p = Inr (Some v)"
  shows "comSendSignal s p buf =
           Inr (E_OK, case UpdateBit s of
                        None \<Rightarrow> field_set buf (sig_positions s) v
                      | Some u \<Rightarrow> Std_BitSet (field_set buf (sig_positions s) v) u)"
  using assms
  by (cases "Endianness s")
     (simp_all add: comSendSignal_def comSendSignalBig_def comSendSignalLittle_def
        sig_positions_def Std_BitSetBigEndian_def Std_BitSetLittleEndian_def
        split: option.splits)

lemma comReceiveSignal_scalar:
  assumes "sig_type s \<noteq> COM_UINT8N" and "Endianness s \<noteq> OPAQUE"
  shows "comReceiveSignal s p buf =
           (case (case UpdateBit s of
                    None \<Rightarrow> Some buf
                  | Some u \<Rightarrow> if \<not> Std_BitGet buf u then None else Some (Std_BitClear buf u)) of
              None \<Rightarrow> Inr (E_NOT_OK, p, buf)
            | Some b \<Rightarrow>
                (case comStoreSignalValue s (field_get b (sig_positions s)) p of
                   Inl f \<Rightarrow> Inl f
                 | Inr (r, d) \<Rightarrow> Inr (r, d, b)))"
  using assms
  by (cases "Endianness s")
     (simp_all add: comReceiveSignal_def comReceiveSignalBig_def comReceiveSignalLittle_def
        sig_positions_def Std_BitGetBigEndian_def Std_BitGetLittleEndian_def Let_def
        split: option.splits)

text \<open>
  C1. For every signed signal kind packed through the endian codec, with a field width
  \<open>w\<close> from 1 to 32 whose bits lie within the buffer (and are not the update bit), and
  for every value \<open>x\<close> of the C type of the signal that is representable in the signed
  range of width \<open>w\<close>: sending the object that holds \<open>x\<close> and receiving immediately
  afterwards both return \<^verbatim>\<open>E_OK\<close>, and the received object holds \<open>x\<close>. On the way,
  \<^verbatim>\<open>comStoreSignalValue\<close> stores the narrowed \<open>sign_extend w v\<close> of the extracted word
  \<open>v\<close>: the word masked to \<open>w\<close> bits, with the complement of the field mask ORed in
  when bit \<open>w - 1\<close> of the field is set.
\<close>

theorem signed_round_trip:
  assumes kind: "sig_type s \<in> {COM_SINT8, COM_SINT16, COM_SINT32}"
    and endian: "Endianness s \<noteq> OPAQUE"
    and w1: "1 \<le> BitSize s" and w32: "BitSize s \<le> 32"
    and field: "\<forall>p\<in>set (sig_positions s). p < 8 * length buf"
    and ubit: "\<forall>u. UpdateBit s = Some u \<longrightarrow> u < 8 * length buf \<and> u \<notin> set (sig_positions s)"
    and lo: "- (2 ^ (BitSize s - 1)) \<le> x" and hi: "x < 2 ^ (BitSize s - 1)"
    and nlo: "- (2 ^ (8 * sig_bytes s - 1)) \<le> x" and nhi: "x < 2 ^ (8 * sig_bytes s - 1)"
    and dst: "sig_bytes s \<le> length dst"
  shows "(\<exists>buf1 buf2 d.
            comSendSignal s (Some (word_bytes (sig_bytes s) (word_of_int x))) buf = Inr (E_OK, buf1)
          \<and> comReceiveSignal s (Some dst) buf1 = Inr (E_OK, Some d, buf2)
          \<and> c_signed (sig_bytes s) d = x)
     \<and> (\<forall>v. comStoreSignalValue s v (Some dst)
              = Inr (E_OK, Some (word_bytes (sig_bytes s) (sign_extend (BitSize s) v)
                                   @ drop (sig_bytes s) dst)))"
proof -
  let ?n = "sig_bytes s" and ?w = "BitSize s" and ?ps = "sig_positions s"
  let ?xw = "word_of_int x :: uint32_t"
  let ?v = "take_bit (8 * ?n) ?xw"
  let ?set = "field_set buf ?ps ?v"
  let ?buf1 = "case UpdateBit s of None \<Rightarrow> ?set | Some u \<Rightarrow> Std_BitSet ?set u"
  let ?buf2 = "case UpdateBit s of None \<Rightarrow> ?buf1 | Some u \<Rightarrow> Std_BitClear ?buf1 u"
  let ?W = "sign_extend ?w (take_bit ?w ?v)"
  let ?d = "word_bytes ?n ?W @ drop ?n dst"
  have n8: "sig_type s \<noteq> COM_UINT8N"
    using kind by auto
  have store: "comStoreSignalValue s v (Some dst)
              = Inr (E_OK, Some (word_bytes ?n (sign_extend ?w v) @ drop ?n dst))" for v
    using kind endian w1 w32 dst by (rule comStoreSignalValue_signed)
  have send: "comSendSignal s (Some (word_bytes ?n ?xw)) buf = Inr (E_OK, ?buf1)"
    using n8 endian comGetSignalValue_signed [OF kind endian]
    by (rule comSendSignal_scalar)
  have gate: "(case UpdateBit s of
                 None \<Rightarrow> Some ?buf1
               | Some u \<Rightarrow> if \<not> Std_BitGet ?buf1 u then None else Some (Std_BitClear ?buf1 u))
              = Some ?buf2"
    using ubit by (auto simp: Std_BitGet_Std_BitSet split: option.splits)
  have same: "\<forall>p\<in>set ?ps. Std_BitGet ?buf2 p = Std_BitGet ?set p"
    using ubit
    by (auto simp: Std_BitGet_Std_BitSet Std_BitGet_Std_BitClear split: option.splits)
  have "field_get ?buf2 ?ps = field_get ?set ?ps"
    using same by (rule field_get_cong)
  also have "\<dots> = take_bit (length ?ps) ?v"
    using sig_positions_props(1) field by (rule field_get_field_set)
  finally have get: "field_get ?buf2 ?ps = take_bit ?w ?v"
    using sig_positions_props(2) [OF endian] by simp
  have recv: "comReceiveSignal s (Some dst) ?buf1 = Inr (E_OK, Some ?d, ?buf2)"
    unfolding comReceiveSignal_scalar [OF n8 endian] gate
    by (simp add: get store)
  have "take_bit (8 * ?n) ?W = take_bit (8 * ?n) ?xw"
    using w1 w32 lo hi by (rule sign_extend_round_trip)
  then have val: "c_signed ?n ?d = x"
    using sig_bytes_signed [OF kind endian] nlo nhi
    by (intro c_signed_stored) simp_all
  show ?thesis
    using send recv val store by blast
qed

text \<open>
  A signed 16-bit signal in a big-endian field of 12 bits at bit 13 with update bit 0,
  and the value \<open>-1348\<close>, whose 12-bit pattern is \<open>0xABC\<close>.
\<close>

theorem signed_round_trip_witness:
  "comSendSignal demo_signed_signal (Some (word_bytes 2 (word_of_int (- 1348)))) [0, 0, 0, 0]
     = Inr (E_OK, [0x01, 0x2A, 0xF0, 0x00])
   \<and> comReceiveSignal demo_signed_signal (Some [0, 0]) [0x01, 0x2A, 0xF0, 0x00]
     = Inr (E_OK, Some [0xBC, 0xFA], [0x00, 0x2A, 0xF0, 0x00])
   \<and> c_signed 2 [0xBC, 0xFA] = - 1348"
proof -
  have kind: "sig_type demo_signed_signal \<in> {COM_SINT8, COM_SINT16, COM_SINT32}"
    and endian: "Endianness demo_signed_signal \<noteq> OPAQUE"
    and w: "1 \<le> BitSize demo_signed_signal" "BitSize demo_signed_signal \<le> 32"
    and n: "sig_bytes demo_signed_signal = 2"
    by (simp_all add: demo_signed_signal_def sig_bytes_def)
  have field: "\<forall>p\<in>set (sig_positions demo_signed_signal). p < 8 * length [0, 0, 0, 0 :: byte]"
    by code_simp
  have ubit: "\<forall>u. UpdateBit demo_signed_signal = Some u \<longrightarrow>
                u < 8 * length [0, 0, 0, 0 :: byte] \<and> u \<notin> set (sig_positions demo_signed_signal)"
  proof -
    have "0 \<notin> set (sig_positions demo_signed_signal)"
      by code_simp
    then show ?thesis
      by (simp add: demo_signed_signal_def)
  qed
  have range: "- (2 ^ (BitSize demo_signed_signal - 1)) \<le> (- 1348 :: int)"
    "(- 1348 :: int) < 2 ^ (BitSize demo_signed_signal - 1)"
    "- (2 ^ (8 * sig_bytes demo_signed_signal - 1)) \<le> (- 1348 :: int)"
    "(- 1348 :: int) < 2 ^ (8 * sig_bytes demo_signed_signal - 1)"
    by (simp_all add: n) (simp_all add: demo_signed_signal_def)
  have dst: "sig_bytes demo_signed_signal \<le> length [0, 0 :: byte]"
    by (simp add: n)
  have send: "comSendSignal demo_signed_signal (Some (word_bytes 2 (word_of_int (- 1348))))
                [0, 0, 0, 0] = Inr (E_OK, [0x01, 0x2A, 0xF0, 0x00])"
    by code_simp
  have recv: "comReceiveSignal demo_signed_signal (Some [0, 0]) [0x01, 0x2A, 0xF0, 0x00]
                = Inr (E_OK, Some [0xBC, 0xFA], [0x00, 0x2A, 0xF0, 0x00])"
    by code_simp
  show ?thesis
    using signed_round_trip [OF kind endian w field ubit range dst] send recv
    by (auto simp: n)
qed

section \<open>Update bits after group initialisation\<close>

lemma Std_BitGet_memcpy:
  assumes "n \<le> length src" and "n \<le> length buf" and "8 * n \<le> q"
  shows "Std_BitGet (take n src @ drop n buf) q = Std_BitGet buf q"
proof -
  have "n \<le> q div 8"
    using assms(3) by (simp add: less_eq_div_iff_mult_less_eq mult.commute)
  then show ?thesis
    using assms(1,2) by (simp add: Std_BitGet_def nth_append min_def)
qed

lemma comSendSignal_scalar_result:
  assumes "\<not> (sig_type s = COM_UINT8N \<or> Endianness s = OPAQUE)"
    and "comSendSignal s p buf = Inr (r, buf')"
  shows "\<exists>b. (b = buf \<or> (\<exists>v. b = field_set buf (sig_positions s) v))
            \<and> buf' = (case UpdateBit s of None \<Rightarrow> b | Some u \<Rightarrow> Std_BitSet b u)"
proof (cases "comGetSignalValue s p")
  case (Inl f)
  then show ?thesis
    using assms
    by (cases "Endianness s")
       (simp_all add: comSendSignal_def comSendSignalBig_def comSendSignalLittle_def)
next
  case (Inr ov)
  show ?thesis
  proof (cases ov)
    case None
    then have "buf' = (case UpdateBit s of None \<Rightarrow> buf | Some u \<Rightarrow> Std_BitSet buf u)"
      using assms Inr
      by (cases "Endianness s")
         (auto simp: comSendSignal_def comSendSignalBig_def comSendSignalLittle_def
            split: option.splits)
    then show ?thesis by blast
  next
    case (Some v)
    then have "comSendSignal s p buf =
           Inr (E_OK, case UpdateBit s of
                        None \<Rightarrow> field_set buf (sig_positions s) v
                      | Some u \<Rightarrow> Std_BitSet (field_set buf (sig_positions s) v) u)"
      using assms(1) Inr by (intro comSendSignal_scalar) auto
    then show ?thesis
      using assms(2) by auto
  qed
qed

lemma comSendSignal_frame:
  assumes "comSendSignal s p buf = Inr (r, buf')" and "q \<notin> set (sig_written s)"
  shows "Std_BitGet buf' q =
           (if UpdateBit s = Some q then q < 8 * length buf else Std_BitGet buf q)"
proof (cases "sig_type s = COM_UINT8N \<or> Endianness s = OPAQUE")
  case True
  then obtain src where p: "p = Some src"
    and n: "drop_bit 3 (BitSize s) \<le> length src" "drop_bit 3 (BitSize s) \<le> length buf"
    and buf': "buf' = (case UpdateBit s of
                         None \<Rightarrow> take (drop_bit 3 (BitSize s)) src @ drop (drop_bit 3 (BitSize s)) buf
                       | Some u \<Rightarrow> Std_BitSet (take (drop_bit 3 (BitSize s)) src
                                     @ drop (drop_bit 3 (BitSize s)) buf) u)"
    using assms(1)
    by (auto simp: comSendSignal_def memcpy_def split: option.splits if_splits)
  have "8 * drop_bit 3 (BitSize s) \<le> q"
    using assms(2) True by (simp add: sig_written_def)
  then have "Std_BitGet (take (drop_bit 3 (BitSize s)) src @ drop (drop_bit 3 (BitSize s)) buf) q
               = Std_BitGet buf q"
    using n by (intro Std_BitGet_memcpy)
  then show ?thesis
    using n by (auto simp: buf' Std_BitGet_Std_BitSet split: option.splits)
next
  case False
  obtain b where b: "b = buf \<or> (\<exists>v. b = field_set buf (sig_positions s) v)"
    and buf': "buf' = (case UpdateBit s of None \<Rightarrow> b | Some u \<Rightarrow> Std_BitSet b u)"
    using comSendSignal_scalar_result [OF False assms(1)] by blast
  have "q \<notin> set (sig_positions s)"
    using assms(2) False by (simp add: sig_written_def)
  then have "Std_BitGet b q = Std_BitGet buf q" and "length b = length buf"
    using b by (auto simp: Std_BitGet_field_set_other)
  then show ?thesis
    by (auto simp: buf' Std_BitGet_Std_BitSet split: option.splits)
qed

lemma comSendSignal_init_ok:
  assumes "init_ok s (length buf)"
  shows "\<exists>r buf'. comSendSignal s (initPtr s) buf = Inr (r, buf')"
proof -
  obtain v where v: "initPtr s = Some v" and len: "sig_bytes s \<le> length v"
    and op: "sig_type s = COM_UINT8N \<or> Endianness s = OPAQUE \<Longrightarrow> sig_bytes s \<le> length buf"
    using assms by (auto simp: init_ok_def split: option.splits if_splits)
  show ?thesis
  proof (cases "sig_type s = COM_UINT8N \<or> Endianness s = OPAQUE")
    case True
    then show ?thesis
      using v len op by (auto simp: comSendSignal_def memcpy_def sig_bytes_def split: option.splits)
  next
    case False
    then show ?thesis
      using v len
      by (cases "Endianness s"; cases "sig_type s")
         (auto simp: comSendSignal_def comSendSignalBig_def comSendSignalLittle_def
            comGetSignalValue_def load_uint_def sig_bytes_def split: option.splits)
  qed
qed

lemma comIPduDataInit_loop_append:
  "comIPduDataInit_loop (xs @ ys) m =
     (case comIPduDataInit_loop xs m of
        Inl f \<Rightarrow> Inl f
      | Inr m1 \<Rightarrow> comIPduDataInit_loop ys m1)"
  by (induction xs arbitrary: m) (auto split: sum.splits)

lemma comIPduDataInit_loop_invariant:
  assumes "\<forall>s\<in>set sigs. init_ok s (length (m (sig_ptr s)))"
  shows "\<exists>m'. comIPduDataInit_loop sigs m = Inr m'
           \<and> (\<forall>addr. length (m' addr) = length (m addr))
           \<and> (\<forall>addr q. q < 8 * length (m addr)
                 \<longrightarrow> (\<forall>b\<in>set sigs. sig_ptr b = addr \<longrightarrow> q \<notin> set (sig_written b))
                 \<longrightarrow> (Std_BitGet (m addr) q
                      \<or> (\<exists>a\<in>set sigs. sig_ptr a = addr \<and> UpdateBit a = Some q))
                 \<longrightarrow> Std_BitGet (m' addr) q)"
  using assms
proof (induction sigs arbitrary: m)
  case Nil
  then show ?case by simp
next
  case (Cons s rest)
  let ?a = "sig_ptr s"
  obtain r buf' where send: "comSendSignal s (initPtr s) (m ?a) = Inr (r, buf')"
    using comSendSignal_init_ok [of s "m ?a"] Cons.prems by auto
  have len: "length buf' = length (m ?a)"
    using send by (rule comSendSignal_length)
  let ?m1 = "m(?a := buf')"
  have len1: "length (?m1 addr) = length (m addr)" for addr
    using len by simp
  have "\<forall>s\<in>set rest. init_ok s (length (?m1 (sig_ptr s)))"
    unfolding len1 using Cons.prems by simp
  from Cons.IH [OF this] obtain m' where
    loop: "comIPduDataInit_loop rest ?m1 = Inr m'"
    and lens: "\<forall>addr. length (m' addr) = length (?m1 addr)"
    and inv: "\<And>addr q. q < 8 * length (?m1 addr)
                 \<Longrightarrow> (\<forall>b\<in>set rest. sig_ptr b = addr \<longrightarrow> q \<notin> set (sig_written b))
                 \<Longrightarrow> (Std_BitGet (?m1 addr) q
                      \<or> (\<exists>a\<in>set rest. sig_ptr a = addr \<and> UpdateBit a = Some q))
                 \<Longrightarrow> Std_BitGet (m' addr) q"
    by blast
  have whole: "comIPduDataInit_loop (s # rest) m = Inr m'"
    using send loop by simp
  have lens': "\<forall>addr. length (m' addr) = length (m addr)"
    using lens unfolding len1 .
  have keep: "Std_BitGet (m' addr) q"
    if q: "q < 8 * length (m addr)"
      and free: "\<forall>b\<in>set (s # rest). sig_ptr b = addr \<longrightarrow> q \<notin> set (sig_written b)"
      and src: "Std_BitGet (m addr) q
                  \<or> (\<exists>a\<in>set (s # rest). sig_ptr a = addr \<and> UpdateBit a = Some q)"
    for addr q
  proof -
    have step: "Std_BitGet (?m1 addr) q
                  \<or> (\<exists>a\<in>set rest. sig_ptr a = addr \<and> UpdateBit a = Some q)"
    proof (cases "addr = ?a")
      case True
      then have "q \<notin> set (sig_written s)"
        using free by simp
      then have "Std_BitGet buf' q =
                   (if UpdateBit s = Some q then q < 8 * length (m ?a) else Std_BitGet (m ?a) q)"
        using send by (intro comSendSignal_frame)
      then show ?thesis
        using True q src by auto
    next
      case False
      then show ?thesis
        using src by auto
    qed
    have "q < 8 * length (?m1 addr)"
      unfolding len1 using q .
    moreover have "\<forall>b\<in>set rest. sig_ptr b = addr \<longrightarrow> q \<notin> set (sig_written b)"
      using free by simp
    ultimately show ?thesis
      using step by (rule inv)
  qed
  show ?case
    using whole lens' keep by blast
qed

lemma comIPduDataInit_loop_update_bits:
  assumes "\<forall>s\<in>set sigs. init_ok s (length (m (sig_ptr s)))"
    and "\<forall>a\<in>set sigs. \<forall>u. UpdateBit a = Some u \<longrightarrow> u < 8 * length (m (sig_ptr a))"
    and "\<forall>a\<in>set sigs. \<forall>b\<in>set sigs. sig_ptr a = sig_ptr b
           \<longrightarrow> (\<forall>u. UpdateBit a = Some u \<longrightarrow> u \<notin> set (sig_written b))"
  shows "\<exists>m'. comIPduDataInit_loop sigs m = Inr m'
           \<and> (\<forall>a\<in>set sigs. \<forall>u. UpdateBit a = Some u \<longrightarrow> Std_BitGet (m' (sig_ptr a)) u)"
proof -
  from comIPduDataInit_loop_invariant [OF assms(1)] obtain m' where
    loop: "comIPduDataInit_loop sigs m = Inr m'"
    and inv: "\<And>addr q. q < 8 * length (m addr)
                 \<Longrightarrow> (\<forall>b\<in>set sigs. sig_ptr b = addr \<longrightarrow> q \<notin> set (sig_written b))
                 \<Longrightarrow> (Std_BitGet (m addr) q
                      \<or> (\<exists>a\<in>set sigs. sig_ptr a = addr \<and> UpdateBit a = Some q))
                 \<Longrightarrow> Std_BitGet (m' addr) q"
    by blast
  have "Std_BitGet (m' (sig_ptr a)) u" if "a \<in> set sigs" and "UpdateBit a = Some u" for a u
    using that assms(2,3) by (intro inv) auto
  then show ?thesis
    using loop by blast
qed

lemma Com_IpduGroupStart_body_init:
  assumes "comIPduDataInit_loop
             (if GroupRefMask (IPduConfigs config ! j) AND push_bit g 1 \<noteq> 0
              then signals (IPduConfigs config ! j) else []) (mem s) = Inr m1"
  shows "\<exists>s1. Com_IpduGroupStart_body config g True j s = Inr s1 \<and> mem s1 = m1"
  using assms
  by (auto simp: Com_IpduGroupStart_body_def comIPduDataInit_def Let_def split: option.splits)

lemma Com_IpduGroupStart_loop_init:
  assumes "comIPduDataInit_loop
             (concat (map (\<lambda>j. if GroupRefMask (IPduConfigs config ! j) AND push_bit g 1 \<noteq> 0
                                then signals (IPduConfigs config ! j) else []) js))
             (mem s) = Inr m'"
  shows "\<exists>st. Com_IpduGroupStart_loop config g True js s = Inr st \<and> mem st = m'"
  using assms
proof (induction js arbitrary: s)
  case Nil
  then show ?case by simp
next
  case (Cons j js)
  let ?here = "if GroupRefMask (IPduConfigs config ! j) AND push_bit g 1 \<noteq> 0
               then signals (IPduConfigs config ! j) else []"
  let ?rest = "concat (map (\<lambda>j. if GroupRefMask (IPduConfigs config ! j) AND push_bit g 1 \<noteq> 0
                                then signals (IPduConfigs config ! j) else []) js)"
  have "comIPduDataInit_loop (?here @ ?rest) (mem s) = Inr m'"
    using Cons.prems by simp
  then obtain m1 where here: "comIPduDataInit_loop ?here (mem s) = Inr m1"
    and rest: "comIPduDataInit_loop ?rest m1 = Inr m'"
    unfolding comIPduDataInit_loop_append by (auto split: sum.splits)
  obtain s1 where body: "Com_IpduGroupStart_body config g True j s = Inr s1" and m1: "mem s1 = m1"
    using Com_IpduGroupStart_body_init [OF here] by blast
  obtain st where "Com_IpduGroupStart_loop config g True js s1 = Inr st" and "mem st = m'"
    using Cons.IH [of s1] rest m1 by auto
  then show ?case
    using body by simp
qed

lemma group_signals_indexed:
  "concat (map (\<lambda>j. if GroupRefMask (IPduConfigs config ! j) AND push_bit g 1 \<noteq> 0
                      then signals (IPduConfigs config ! j) else [])
            [0 ..< numOfIPdus config])
     = group_signals config g"
proof -
  let ?f = "\<lambda>IPduConfig. if GroupRefMask IPduConfig AND push_bit g 1 \<noteq> 0
                          then signals IPduConfig else []"
  have "map (\<lambda>j. ?f (IPduConfigs config ! j)) [0 ..< length (IPduConfigs config)]
          = map ?f (map ((!) (IPduConfigs config)) [0 ..< length (IPduConfigs config)])"
    by simp
  also have "\<dots> = map ?f (IPduConfigs config)"
    by (simp only: map_nth)
  finally show ?thesis
    by (simp add: group_signals_def numOfIPdus_def)
qed

lemma group_signals_member:
  assumes "i < numOfIPdus config"
    and "GroupRefMask (IPduConfigs config ! i) AND push_bit g 1 \<noteq> 0"
    and "s \<in> set (signals (IPduConfigs config ! i))"
  shows "s \<in> set (group_signals config g)"
  using assms by (auto simp: group_signals_def numOfIPdus_def intro!: bexI [of _ "IPduConfigs config ! i"])

text \<open>
  C10. Let the signals that the start of group \<open>g\<close> initialises (those of the I-PDUs
  whose mask contains \<open>g\<close>) have initial values of sufficient length, update bits that
  lie within their buffers, and value fields that do not cover the update bit of a signal
  in the same buffer. Then \<^verbatim>\<open>Com_IpduGroupStart\<close> with \<open>initialize\<close> set completes,
  and afterwards every signal with an update bit in every such I-PDU has its update bit
  set, since each signal went through \<^verbatim>\<open>comSendSignal\<close>. So the first
  \<^verbatim>\<open>comReceiveSignal\<close> passes the gate: it clears the bit and proceeds as for the
  signal without update bit, although no signal was sent by the application.
\<close>

theorem group_start_sets_update_bits:
  assumes g: "g < numOfGroups config"
    and ok: "\<forall>s\<in>set (group_signals config g). init_ok s (length (mem st0 (sig_ptr s)))"
    and inb: "\<forall>a\<in>set (group_signals config g). \<forall>u. UpdateBit a = Some u
                \<longrightarrow> u < 8 * length (mem st0 (sig_ptr a))"
    and layout: "\<forall>a\<in>set (group_signals config g). \<forall>b\<in>set (group_signals config g).
                   sig_ptr a = sig_ptr b
                   \<longrightarrow> (\<forall>u. UpdateBit a = Some u \<longrightarrow> u \<notin> set (sig_written b))"
    and i: "i < numOfIPdus config"
    and mask: "GroupRefMask (IPduConfigs config ! i) AND push_bit g 1 \<noteq> 0"
    and s: "s \<in> set (signals (IPduConfigs config ! i))"
    and u: "UpdateBit s = Some u"
  shows "\<exists>st. Com_IpduGroupStart config g True st0 = Inr st
          \<and> Std_BitGet (mem st (sig_ptr s)) u
          \<and> (\<forall>p. comReceiveSignal s p (mem st (sig_ptr s))
                   = comReceiveSignal (s\<lparr>UpdateBit := None\<rparr>) p
                       (Std_BitClear (mem st (sig_ptr s)) u))"
proof -
  let ?st1 = "st0\<lparr>GroupStatus := GroupStatus st0 OR push_bit g 1\<rparr>"
  obtain m' where loop: "comIPduDataInit_loop (group_signals config g) (mem st0) = Inr m'"
    and bits: "\<forall>a\<in>set (group_signals config g). \<forall>u. UpdateBit a = Some u
                 \<longrightarrow> Std_BitGet (m' (sig_ptr a)) u"
    using comIPduDataInit_loop_update_bits [OF ok inb layout] by blast
  have "comIPduDataInit_loop
             (concat (map (\<lambda>j. if GroupRefMask (IPduConfigs config ! j) AND push_bit g 1 \<noteq> 0
                                then signals (IPduConfigs config ! j) else [])
                        [0 ..< numOfIPdus config]))
             (mem ?st1) = Inr m'"
    unfolding group_signals_indexed using loop by simp
  then obtain st where
    start: "Com_IpduGroupStart_loop config g True [0 ..< numOfIPdus config] ?st1 = Inr st"
    and m: "mem st = m'"
    using Com_IpduGroupStart_loop_init by blast
  have res: "Com_IpduGroupStart config g True st0 = Inr st"
    using g start by (simp add: Com_IpduGroupStart_def)
  have set: "Std_BitGet (mem st (sig_ptr s)) u"
    using bits group_signals_member [OF i mask s] u m by simp
  have "comReceiveSignal s p (mem st (sig_ptr s))
          = comReceiveSignal (s\<lparr>UpdateBit := None\<rparr>) p (Std_BitClear (mem st (sig_ptr s)) u)" for p
    using u set by (rule comReceiveSignal_gate_open)
  then show ?thesis
    using res set by blast
qed

text \<open>
  Group 0 of the example: the signal of I-PDU 0 is initialised to \<open>0x5A\<close>, its update
  bit 15 is set, and a receive returns the initial value.
\<close>

theorem group_start_sets_update_bits_witness:
  "Com_IpduGroupStart demo_config 0 True demo_state = Inr demo_initialised
   \<and> Std_BitGet (mem demo_initialised 0) 15
   \<and> comReceiveSignal demo_tx_signal (Some [0]) (mem demo_initialised 0)
       = Inr (E_OK, Some [0x5A], [0x5A, 0x01])"
proof -
  have sigs: "group_signals demo_config 0 = [demo_tx_signal]"
    by (simp add: group_signals_def demo_config_def)
  have g: "0 < numOfGroups demo_config" and i: "0 < numOfIPdus demo_config"
    and mask: "GroupRefMask (IPduConfigs demo_config ! 0) AND push_bit 0 1 \<noteq> 0"
    and s: "demo_tx_signal \<in> set (signals (IPduConfigs demo_config ! 0))"
    and u: "UpdateBit demo_tx_signal = Some 15"
    by (simp_all add: demo_config_def numOfIPdus_def demo_tx_signal_def)
  have ok: "\<forall>s\<in>set (group_signals demo_config 0).
              init_ok s (length (mem demo_state (sig_ptr s)))"
    unfolding sigs
    by (simp add: init_ok_def sig_bytes_def demo_tx_signal_def demo_state_def)
  have inb: "\<forall>a\<in>set (group_signals demo_config 0). \<forall>u. UpdateBit a = Some u
                \<longrightarrow> u < 8 * length (mem demo_state (sig_ptr a))"
    unfolding sigs by (simp add: demo_tx_signal_def demo_state_def)
  have layout: "\<forall>a\<in>set (group_signals demo_config 0). \<forall>b\<in>set (group_signals demo_config 0).
                   sig_ptr a = sig_ptr b
                   \<longrightarrow> (\<forall>u. UpdateBit a = Some u \<longrightarrow> u \<notin> set (sig_written b))"
    unfolding sigs
    by (simp add: demo_tx_signal_def sig_written_def sig_positions_def little_positions_def)
  have init: "comSendSignal demo_tx_signal (Some [0x5A]) [0x80, 0x01] = Inr (E_OK, [0x5A, 0x81])"
    by code_simp
  have P0: "GroupRefMask (IPduConfigs demo_config ! 0) = 1"
    "signals (IPduConfigs demo_config ! 0) = [demo_tx_signal]"
    "rxConfig (IPduConfigs demo_config ! 0) = None"
    "txConfig (IPduConfigs demo_config ! 0) = Some \<lparr>FirstTime = 2, CycleTime = 5, TxPduId = 7\<rparr>"
    and P1: "GroupRefMask (IPduConfigs demo_config ! Suc 0) = 2"
    and ip: "initPtr demo_tx_signal = Some [0x5A]"
    by (simp_all add: demo_config_def demo_tx_signal_def)
  let ?st1 = "demo_state\<lparr>GroupStatus := GroupStatus demo_state OR 1\<rparr>"
  have m1: "mem ?st1 0 = [0x80, 0x01]"
    by (simp add: demo_state_def)
  have b0: "Com_IpduGroupStart_body demo_config 0 True 0 ?st1 = Inr demo_initialised"
    by (simp add: Com_IpduGroupStart_body_def comIPduDataInit_def Let_def P0 ip demo_tx_ptr
          m1 [simplified] init demo_initialised_def demo_state_def)
  have b1: "Com_IpduGroupStart_body demo_config 0 True (Suc 0) demo_initialised
              = Inr demo_initialised"
    by (simp add: Com_IpduGroupStart_body_def Let_def P1)
  have idx: "[0 ..< numOfIPdus demo_config] = [0, Suc 0]"
    by (simp add: numOfIPdus_def demo_config_def upt_rec)
  have start: "Com_IpduGroupStart demo_config 0 True demo_state = Inr demo_initialised"
    using g by (simp add: Com_IpduGroupStart_def idx b0 b1)
  have recv: "comReceiveSignal demo_tx_signal (Some [0]) [0x5A, 0x81]
                = Inr (E_OK, Some [0x5A], [0x5A, 0x01])"
    by code_simp
  have m0: "mem demo_initialised 0 = [0x5A, 0x81]"
    by (simp add: demo_initialised_def)
  show ?thesis
    using group_start_sets_update_bits [OF g ok inb layout i mask s u] start recv
    by (auto simp: m0 demo_tx_ptr)
qed

section \<open>The update-bit gate across a send and two receives\<close>

lemma mask_code_any: "drop_bit (32 - w) (0xFFFFFFFF :: uint32_t) = mask w"
  unfolding all_ones by (intro bit_word_eqI) (auto simp: bit_simps)

lemma top_bit_or:
  assumes "v AND NOT (drop_bit 1 (- 1)) \<noteq> (0 :: uint32_t)"
  shows "v OR NOT (drop_bit 1 (- 1)) = v"
proof -
  obtain k where k: "bit (v AND NOT (drop_bit 1 (- 1 :: uint32_t))) k"
    using assms word_neq_0_bit by blast
  have "k < 32"
    using k by (auto dest: bit_imp_le_length)
  then have "bit v k" and "\<not> k < 31"
    using k by (auto simp: bit_simps)
  then have "k = 31"
    using \<open>k < 32\<close> by simp
  then have top: "bit v 31"
    using \<open>bit v k\<close> by simp
  show ?thesis
  proof (rule bit_word_eqI)
    fix n
    assume "n < LENGTH(32)"
    then have "n < 31 \<or> n = 31"
      by auto
    then show "bit (v OR NOT (drop_bit 1 (- 1))) n = bit v n"
      using top by (auto simp: bit_simps)
  qed
qed

lemma sign_extension_code_any:
  "(let mask = drop_bit (32 - w) (0xFFFFFFFF :: uint32_t);
        sigV = v AND mask;
        signmask = NOT (drop_bit 1 mask)
    in if sigV AND signmask \<noteq> 0 then sigV OR signmask else sigV)
   = sign_extend w v"
proof -
  have "w = 0 \<or> (1 \<le> w \<and> w \<le> 32) \<or> 32 < w"
    by arith
  moreover have ?thesis if "w = 0"
    unfolding Let_def mask_code_any sign_extend_def that by simp
  moreover have ?thesis if "1 \<le> w \<and> w \<le> 32"
    using that by (intro sign_extension_code) simp_all
  moreover have ?thesis if "32 < w"
  proof -
    have full: "mask w = (- 1 :: uint32_t)"
      using that by (intro bit_word_eqI) (auto simp: bit_simps)
    have nobit: "\<not> bit v (w - 1)"
      using that by (auto dest: bit_imp_le_length)
    show ?thesis
      unfolding Let_def mask_code_any full sign_extend_def
      using nobit top_bit_or [of v] by (simp del: drop_bit_minus_one)
  qed
  ultimately show ?thesis
    by blast
qed

lemma comReceiveSignal_object:
  assumes "UpdateBit s = None"
    and "if sig_type s = COM_UINT8N \<or> Endianness s = OPAQUE
         then drop_bit 3 (BitSize s) \<le> length buf \<and> r = E_OK
         else (r = E_OK) =
                (sig_type s \<in> {COM_SINT8, COM_UINT8, COM_SINT16, COM_UINT16, COM_SINT32, COM_UINT32})"
    and "sig_bytes s \<le> length dst"
  shows "comReceiveSignal s (Some dst) buf = Inr (r, Some (received_object s buf dst), buf)"
proof (cases "sig_type s = COM_UINT8N \<or> Endianness s = OPAQUE")
  case True
  then show ?thesis
    using assms
    by (auto simp: comReceiveSignal_def memcpy_def sig_bytes_def received_object_def)
next
  case False
  note scalar = comReceiveSignal_scalar [of s "Some dst" buf]
  note ext = sign_extension_code_any [of "BitSize s" "field_get buf (sig_positions s)",
      unfolded Let_def]
  show ?thesis
    using False assms ext
    by (cases "sig_type s"; cases r)
       (auto simp: scalar comStoreSignalValue_def store_uint_def sig_bytes_def
          received_object_def mask_code_any Let_def)
qed

lemma sig_positions_UpdateBit: "sig_positions (s\<lparr>UpdateBit := x\<rparr>) = sig_positions s"
  by (cases "Endianness s") (simp_all add: sig_positions_def)

lemma received_object_UpdateBit:
  "received_object (s\<lparr>UpdateBit := x\<rparr>) buf dst = received_object s buf dst"
  by (simp add: received_object_def sig_bytes_UpdateBit sig_positions_UpdateBit)

text \<open>
  C2, as the code has it. For every signal configured with an update bit that lies within
  its buffer: when \<^verbatim>\<open>Com_SendSignal\<close> has returned, the update bit is set, and the status
  is \<^verbatim>\<open>E_OK\<close> for a signal of a supported kind and \<^verbatim>\<open>E_NOT_OK\<close> for one of an
  unsupported kind. The following \<^verbatim>\<open>Com_ReceiveSignal\<close> finds the bit set, clears it and
  returns that same status: for a supported kind it reads the value from the buffer into
  the destination, for an unsupported kind it leaves the destination as it was. Nothing
  but the update bit changes in the state. A second \<^verbatim>\<open>Com_ReceiveSignal\<close> with no send
  in between finds the bit clear and returns \<^verbatim>\<open>E_NOT_OK\<close>, with the destination and the
  state as they were.
\<close>

theorem update_bit_gating:
  assumes sid: "SignalId < numOfSignals config"
    and s: "SignalConfigs config ! SignalId = signal"
    and ub: "UpdateBit signal = Some u"
    and inb: "u < 8 * length (mem st (sig_ptr signal))"
    and send: "Com_SendSignal config SignalId src st = Inr (r, st1)"
    and st2: "st2 = st1\<lparr>mem := (mem st1)(sig_ptr signal := Std_BitClear (mem st1 (sig_ptr signal)) u)\<rparr>"
    and dst: "sig_bytes signal \<le> length dst"
  shows "Std_BitGet (mem st1 (sig_ptr signal)) u
     \<and> r = (if sig_supported signal then E_OK else E_NOT_OK)
     \<and> Com_ReceiveSignal config SignalId (Some dst) st1
         = Inr (r, Some (received_object signal (mem st2 (sig_ptr signal)) dst), st2)
     \<and> \<not> Std_BitGet (mem st2 (sig_ptr signal)) u
     \<and> Com_ReceiveSignal config SignalId (Some dst') st2 = Inr (E_NOT_OK, Some dst', st2)"
proof -
  let ?a = "sig_ptr signal"
  let ?s = "signal\<lparr>UpdateBit := None\<rparr>"
  obtain buf1 where buf1: "comSendSignal signal src (mem st ?a) = Inr (r, buf1)"
    and st1: "st1 = st\<lparr>mem := (mem st)(?a := buf1)\<rparr>"
    using send sid s
    by (auto simp: Com_SendSignal_def Let_def split: sum.splits)
  have len: "length buf1 = length (mem st ?a)"
    using buf1 by (rule comSendSignal_length)
  have set1: "Std_BitGet buf1 u"
    using buf1 ub inb by (rule comSendSignal_update_bit)
  have status: "r = (if sig_supported signal then E_OK else E_NOT_OK)"
    using comSendSignal_status [OF buf1]
    by (cases r) (auto simp: sig_supported_def split: if_splits)
  have sup: "if sig_type ?s = COM_UINT8N \<or> Endianness ?s = OPAQUE
         then drop_bit 3 (BitSize ?s) \<le> length (Std_BitClear buf1 u) \<and> r = E_OK
         else (r = E_OK) =
                (sig_type ?s \<in> {COM_SINT8, COM_UINT8, COM_SINT16, COM_UINT16, COM_SINT32, COM_UINT32})"
    using comSendSignal_status [OF buf1] len by (auto split: if_splits)
  have dst': "sig_bytes ?s \<le> length dst"
    using dst by (simp add: sig_bytes_UpdateBit)
  have d: "comReceiveSignal ?s (Some dst) (Std_BitClear buf1 u)
             = Inr (r, Some (received_object signal (Std_BitClear buf1 u) dst), Std_BitClear buf1 u)"
    using comReceiveSignal_object [OF _ sup dst'] by (simp add: received_object_UpdateBit)
  have m1: "mem st1 ?a = buf1" and m2: "mem st2 ?a = Std_BitClear buf1 u"
    by (simp_all add: st1 st2)
  have r1: "Com_ReceiveSignal config SignalId (Some dst) st1
              = Inr (r, Some (received_object signal (Std_BitClear buf1 u) dst), st2)"
    using sid s d comReceiveSignal_gate_open [OF ub set1, of "Some dst"]
    by (simp add: Com_ReceiveSignal_def Let_def m1 st2)
  have clr: "\<not> Std_BitGet (mem st2 ?a) u"
    by (simp add: m2 Std_BitGet_Std_BitClear)
  have r2: "Com_ReceiveSignal config SignalId (Some dst') st2 = Inr (E_NOT_OK, Some dst', st2)"
    using sid s comReceiveSignal_gate_closed [OF ub clr, of "Some dst'"]
    by (simp add: Com_ReceiveSignal_def Let_def st2)
  show ?thesis
    using set1 status r1 clr r2 by (simp add: m1 m2)
qed

text \<open>
  Signal 0 of the example, sent with the value \<open>0x5A\<close>: the first receive returns
  \<^verbatim>\<open>E_OK\<close> and the value, the second \<^verbatim>\<open>E_NOT_OK\<close>.
\<close>

theorem update_bit_gating_witness:
  "Std_BitGet (mem demo_sent 0) 15
   \<and> Com_ReceiveSignal demo_config 0 (Some [0]) demo_sent = Inr (E_OK, Some [0x5A], demo_received)
   \<and> \<not> Std_BitGet (mem demo_received 0) 15
   \<and> Com_ReceiveSignal demo_config 0 (Some [7]) demo_received
        = Inr (E_NOT_OK, Some [7], demo_received)"
proof -
  have buf: "comSendSignal demo_tx_signal (Some [0x5A]) [0x80, 0x01] = Inr (E_OK, [0x5A, 0x81])"
    by code_simp
  have send: "Com_SendSignal demo_config 0 (Some [0x5A]) demo_state = Inr (E_OK, demo_sent)"
    by (simp add: Com_SendSignal_def demo_config_def numOfSignals_def Let_def buf demo_sent_def
          demo_tx_ptr demo_state_mem0)
  have clr: "Std_BitClear [0x5A, 0x81] 15 = [0x5A, 0x01]"
    by code_simp
  have obj: "received_object demo_tx_signal [0x5A, 0x01] [0] = [0x5A]"
    by code_simp
  have h: "0 < numOfSignals demo_config" "SignalConfigs demo_config ! 0 = demo_tx_signal"
    "UpdateBit demo_tx_signal = Some 15" "15 < 8 * length (mem demo_state (sig_ptr demo_tx_signal))"
    by (simp_all add: demo_config_def numOfSignals_def demo_tx_signal_def demo_state_def)
  have st2: "demo_received = demo_sent\<lparr>mem := (mem demo_sent)
               (sig_ptr demo_tx_signal := Std_BitClear (mem demo_sent (sig_ptr demo_tx_signal)) 15)\<rparr>"
    by (simp add: demo_received_def demo_sent_def demo_tx_ptr clr)
  have dst: "sig_bytes demo_tx_signal \<le> length [0 :: byte]"
    by (simp add: sig_bytes_def demo_tx_signal_def)
  have m2: "mem demo_received 0 = [0x5A, 0x01]"
    by (simp add: demo_received_def)
  show ?thesis
    using update_bit_gating [OF h send st2 dst, of "[7]"]
    by (simp add: demo_tx_ptr m2 obj)
qed

text \<open>
  C2, as stated, fails: signal 2 of the example has update bit 14 and an unsupported kind.
  The send sets the bit and returns \<^verbatim>\<open>E_NOT_OK\<close>; the receive that follows finds the
  bit set, clears it, and returns \<^verbatim>\<open>E_NOT_OK\<close>, not \<^verbatim>\<open>E_OK\<close>.
\<close>

theorem update_bit_gating_unsupported_not_ok:
  "UpdateBit (SignalConfigs demo_config ! 2) = Some 14
   \<and> Com_SendSignal demo_config 2 (Some [1]) demo_state = Inr (E_NOT_OK, demo_unsupported_sent)
   \<and> Std_BitGet (mem demo_unsupported_sent 0) 14
   \<and> Com_ReceiveSignal demo_config 2 (Some [0]) demo_unsupported_sent
        = Inr (E_NOT_OK, Some [0], demo_unsupported_received)
   \<and> \<not> Std_BitGet (mem demo_unsupported_received 0) 14"
proof -
  have send: "comSendSignal demo_unsupported_signal (Some [1]) [0x80, 0x01]
                = Inr (E_NOT_OK, [0x80, 0x41])"
    by code_simp
  have recv: "comReceiveSignal demo_unsupported_signal (Some [0]) [0x80, 0x41]
                = Inr (E_NOT_OK, Some [0], [0x80, 0x01])"
    by code_simp
  have bits: "Std_BitGet [0x80, 0x41] 14" "\<not> Std_BitGet [0x80, 0x01] 14"
    by code_simp+
  have p: "sig_ptr demo_unsupported_signal = 0"
    and u: "UpdateBit demo_unsupported_signal = Some 14"
    by (simp_all add: demo_unsupported_signal_def)
  show ?thesis
    by (simp add: Com_SendSignal_def Com_ReceiveSignal_def demo_config_def numOfSignals_def
          Let_def p u demo_state_mem0 send recv bits demo_unsupported_sent_def
          demo_unsupported_received_def)
qed

end
